theory Spec2Isabelle
  imports Complex_Main
begin

section \<open>Python values shared by the modules\<close>

text \<open>
  Exceptions are values. Only the exception classes that the modelled functions can raise
  are listed; the argument of \<open>ModelError\<close> stands for any exception raised inside the
  external sentence-embedding model.
\<close>

datatype py_error =
    ZeroDivisionError
  | IndexError
  | ValueError string
  | ValidationError string
  | FileNotFoundError string
  | YAMLError
  | OSError
  | ModelError string

text \<open>
  Python's \<open>xs[:k]\<close>: a negative \<open>k\<close> counts from the end, and a bound outside the list
  is clamped.
\<close>

definition py_slice_to :: "'a list \<Rightarrow> int \<Rightarrow> 'a list" where
  "py_slice_to xs k =
     (if k < 0 then take (nat (int (length xs) + k)) xs else take (nat k) xs)"

text \<open>\<open>sum\<close> over a list of booleans counts the entries that are \<open>True\<close>.\<close>

definition sum_bools :: "bool list \<Rightarrow> nat" where
  "sum_bools bs = length (filter (\<lambda>b. b) bs)"


section \<open>Evaluation metrics (eval/matrices.py)\<close>

text \<open>
  \<^verbatim>\<open>
  def precision_at_k(relevant_items, k):
      if len(relevant_items) < k:
          k = len(relevant_items)
      top_k = relevant_items[:k]
      return sum(top_k) / k
  \<close>
  \<open>k\<close> is a Python \<open>int\<close>, so it is an \<open>int\<close> here; true division by zero raises.
\<close>

definition precision_at_k :: "bool list \<Rightarrow> int \<Rightarrow> py_error + real" where
  "precision_at_k relevant_items k0 =
     (let k = (if int (length relevant_items) < k0 then int (length relevant_items) else k0);
          top_k = py_slice_to relevant_items k
      in if k = 0 then Inl ZeroDivisionError
         else Inr (real (sum_bools top_k) / real_of_int k))"


section \<open>Data model (app/models.py)\<close>

text \<open>
  Texts are Python \<open>str\<close> values whose code points lie below 256 (ASCII and Latin-1): a
  \<open>char\<close> is one code point. Skill labels, e-mail addresses and paths are such strings too.
  The pydantic models become records. \<open>Resume.raw_text\<close> and
  \<open>JobDescription.raw_text\<close> are two fields of the same name in two classes, so the
  fields of the job description carry the prefix \<open>jd_\<close> where a name would clash, and
  those of the match result the prefix \<open>mr_\<close>.
\<close>

record Resume =
  raw_text :: string
  email :: "string option"
  phone :: "string option"
  skills :: "string list"
  skills_by_category :: "(string \<times> string list) list"
  experience :: real
  education :: "string option"

record JobDescription =
  jd_raw_text :: string
  required_skills :: "string list"
  preferred_skills :: "string list"
  jd_skills_by_category :: "(string \<times> string list) list"
  title :: "string option"
  company :: "string option"

text \<open>The property \<open>JobDescription.skills\<close>: required followed by preferred.\<close>

definition jd_all_skills :: "JobDescription \<Rightarrow> string list" where
  "jd_all_skills jd = required_skills jd @ preferred_skills jd"

record MatchResult =
  mr_resume :: Resume
  mr_job_description :: JobDescription
  similarity_score :: real
  skill_coverage :: real
  skill_density :: real
  matching_skills :: "string list"
  missing_skills :: "string list"
  explanation :: string

text \<open>
  Constructing a \<open>MatchResult\<close> runs pydantic's validation: the three scores are declared
  with \<open>ge=0.0, le=1.0\<close>, and a value outside raises a validation error.
\<close>

definition in_unit :: "real \<Rightarrow> bool" where
  "in_unit x = (0 \<le> x \<and> x \<le> 1)"

definition make_MatchResult ::
  "Resume \<Rightarrow> JobDescription \<Rightarrow> real \<Rightarrow> real \<Rightarrow> real \<Rightarrow> string list \<Rightarrow> string list \<Rightarrow> string
     \<Rightarrow> py_error + MatchResult" where
  "make_MatchResult r jd sim cov dens matching missing expl =
     (if \<not> in_unit sim then Inl (ValidationError ''similarity_score'')
      else if \<not> in_unit cov then Inl (ValidationError ''skill_coverage'')
      else if \<not> in_unit dens then Inl (ValidationError ''skill_density'')
      else Inr \<lparr> mr_resume = r, mr_job_description = jd, similarity_score = sim,
                 skill_coverage = cov, skill_density = dens, matching_skills = matching,
                 missing_skills = missing, explanation = expl \<rparr>)"


section \<open>Strings and sets of Python\<close>

text \<open>
  \<open>str.strip()\<close> and the regular-expression class \<open>\s\<close> use the same test; below 256
  the white-space code points are 9 to 13, 28 to 32, 133 and 160.
\<close>

definition py_isspace :: "char \<Rightarrow> bool" where
  "py_isspace c =
     (let n = (of_char c :: nat)
      in (9 \<le> n \<and> n \<le> 13) \<or> (28 \<le> n \<and> n \<le> 32) \<or> n = 133 \<or> n = 160)"

definition strip :: "string \<Rightarrow> string" where
  "strip s = rev (dropWhile py_isspace (rev (dropWhile py_isspace s)))"

text \<open>\<open>sep.join(xs)\<close>.\<close>

fun py_join :: "string \<Rightarrow> string list \<Rightarrow> string" where
  "py_join sep [] = []"
| "py_join sep [x] = x"
| "py_join sep (x # y # ys) = x @ sep @ py_join sep (y # ys)"

text \<open>
  A Python \<open>set\<close> of strings is kept as a list without duplicates. Python fixes no
  iteration order for a set, so the position of an element in such a list carries no
  meaning: properties are stated on \<open>set\<close> of the list and on its length.
\<close>

definition py_set :: "'a list \<Rightarrow> 'a list" where
  "py_set xs = remdups xs"

definition py_inter :: "'a list \<Rightarrow> 'a list \<Rightarrow> 'a list" where
  "py_inter a b = filter (\<lambda>x. x \<in> set b) a"

definition py_diff :: "'a list \<Rightarrow> 'a list \<Rightarrow> 'a list" where
  "py_diff a b = filter (\<lambda>x. x \<notin> set b) a"


section \<open>Semantic matcher (app/matcher.py)\<close>

text \<open>
  \<open>self.model\<close> is the external sentence-embedding model. \<open>encode\<close> takes the list of
  texts and returns one vector per text, or raises; it is a parameter of the functions that
  use it.
\<close>

type_synonym encoder = "string list \<Rightarrow> py_error + real list list"

text \<open>
  \<open>sklearn.metrics.pairwise.cosine_similarity\<close> on two single-row matrices, over the reals:
  the rows must have the same positive number of columns (a \<open>ValueError\<close> otherwise); each
  row is divided by its Euclidean norm, a zero norm being replaced by 1; the result is
  the dot product.
\<close>

definition l2_norm :: "real list \<Rightarrow> real" where
  "l2_norm v = sqrt (sum_list (map (\<lambda>x. x * x) v))"

definition normalize_row :: "real list \<Rightarrow> real list" where
  "normalize_row v = (let n = l2_norm v in if n = 0 then v else map (\<lambda>x. x / n) v)"

definition dot :: "real list \<Rightarrow> real list \<Rightarrow> real" where
  "dot x y = sum_list (map2 (*) x y)"

definition cosine_similarity :: "real list \<Rightarrow> real list \<Rightarrow> py_error + real" where
  "cosine_similarity x y =
     (if x = [] \<or> y = [] \<or> length x \<noteq> length y then Inl (ValueError ''shape'')
      else Inr (dot (normalize_row x) (normalize_row y)))"

text \<open>
  \<^verbatim>\<open>
  def calculate_semantic_similarity(self, text1, text2):
      try:
          if not text1.strip() or not text2.strip():
              return 0.0
          embeddings = self.model.encode([text1, text2], normalize_embeddings=True)
          similarity = cosine_similarity([embeddings[0]], [embeddings[1]])[0][0]
          return float(similarity)
      except Exception as e:
          logger.error(...)
          return 0.0
  \<close>
  The result is the returned number together with the calls made to the model (the list of
  argument lists passed to \<open>encode\<close>), so that "the model is not invoked" is a property of
  the result.
\<close>

definition calculate_semantic_similarity ::
  "encoder \<Rightarrow> string \<Rightarrow> string \<Rightarrow> real \<times> string list list" where
  "calculate_semantic_similarity encode text1 text2 =
     (if strip text1 = [] \<or> strip text2 = [] then (0, [])
      else
        (case encode [text1, text2] of
           Inl e \<Rightarrow> (0, [[text1, text2]])
         | Inr embeddings \<Rightarrow>
             (case embeddings of
                e0 # e1 # rest \<Rightarrow>
                  (case cosine_similarity e0 e1 of
                     Inl e \<Rightarrow> (0, [[text1, text2]])
                   | Inr similarity \<Rightarrow> (similarity, [[text1, text2]]))
              | _ \<Rightarrow> (0, [[text1, text2]]))))"

text \<open>
  \<^verbatim>\<open>
  def calculate_skill_coverage(self, resume_skills, jd_skills):
      try:
          if not jd_skills:
              return 0.0
          resume_skills_set = set(resume_skills) if resume_skills else set()
          jd_skills_set = set(jd_skills) if jd_skills else set()
          matched_skills = resume_skills_set & jd_skills_set
          coverage = len(matched_skills) / len(jd_skills_set) if jd_skills_set else 0.0
          return coverage
      except Exception as e:
          return 0.0
  \<close>
  Nothing in the body raises on lists of strings, so the handler is never entered.
\<close>

definition calculate_skill_coverage :: "string list \<Rightarrow> string list \<Rightarrow> real" where
  "calculate_skill_coverage resume_skills jd_skills =
     (if jd_skills = [] then 0
      else
        (let resume_skills_set = (if resume_skills \<noteq> [] then py_set resume_skills else []);
             jd_skills_set = (if jd_skills \<noteq> [] then py_set jd_skills else []);
             matched_skills = py_inter resume_skills_set jd_skills_set
         in if jd_skills_set \<noteq> []
            then real (length matched_skills) / real (length jd_skills_set) else 0))"

definition calculate_skill_density :: "string list \<Rightarrow> string list \<Rightarrow> real" where
  "calculate_skill_density resume_skills jd_skills =
     (if resume_skills = [] then 0
      else
        (let resume_skills_set = (if resume_skills \<noteq> [] then py_set resume_skills else []);
             jd_skills_set = (if jd_skills \<noteq> [] then py_set jd_skills else []);
             relevant_skills = py_inter resume_skills_set jd_skills_set
         in if resume_skills_set \<noteq> []
            then real (length relevant_skills) / real (length resume_skills_set) else 0))"

text \<open>
  \<open>_safe_get_skills(obj)\<close> is called on a resume and on a job description; for the latter
  \<open>obj.skills\<close> is the property above. Neither is ever \<open>None\<close>.
\<close>

definition safe_get_skills :: "Resume + JobDescription \<Rightarrow> string list" where
  "safe_get_skills obj = (case obj of Inl r \<Rightarrow> skills r | Inr jd \<Rightarrow> jd_all_skills jd)"

text \<open>\<open>_generate_explanation\<close>: the fixed thresholds and sentences of the source.\<close>

definition generate_explanation ::
  "real \<Rightarrow> real \<Rightarrow> real \<Rightarrow> string list \<Rightarrow> string list \<Rightarrow> string" where
  "generate_explanation similarity coverage density matching missing =
     (let overall_score = 0.4 * similarity + 0.4 * coverage + 0.2 * density;
          p1 = (if overall_score \<ge> 0.8 then ''Excellent overall match for this position.''
                else if overall_score \<ge> 0.6 then ''Good match with some areas for improvement.''
                else if overall_score \<ge> 0.4
                  then ''Moderate match - consider additional preparation.''
                else ''Limited match - significant gaps identified.'');
          p2 = (if similarity \<ge> 0.7
                  then ''Excellent semantic alignment with the job description.''
                else if similarity \<ge> 0.5
                  then ''Good semantic similarity with the role requirements.''
                else ''Limited semantic similarity with the job description.'');
          p3 = (if coverage \<ge> 0.8 then ''Excellent skill coverage for this role.''
                else if coverage \<ge> 0.6 then ''Good skill match for most requirements.''
                else if coverage \<ge> 0.4 then ''Moderate skill coverage - some gaps exist.''
                else ''Significant skill gaps for this position.'');
          p4 = (if matching \<noteq> []
                then [''Strong skills in: '' @ py_join '', '' (take 5 matching) @ ''.'']
                else []);
          p5 = (if missing \<noteq> []
                then [''Consider developing skills in: '' @ py_join '', '' (take 3 missing) @ ''.'']
                else [])
      in py_join '' '' ([p1, p2, p3] @ p4 @ p5))"

text \<open>
  \<^verbatim>\<open>
  def match_resume_to_jd(self, resume, jd):
      try:
          resume_skills = self._safe_get_skills(resume)
          jd_skills = self._safe_get_skills(jd)
          similarity_score = self.calculate_semantic_similarity(resume.raw_text or "", jd.raw_text or "")
          skill_coverage = self.calculate_skill_coverage(resume_skills, jd_skills)
          skill_density = self.calculate_skill_density(resume_skills, jd_skills)
          resume_skills_set = set(resume_skills) if resume_skills else set()
          jd_skills_set = set(jd_skills) if jd_skills else set()
          matching_skills = list(resume_skills_set & jd_skills_set)
          missing_skills = list(jd_skills_set - resume_skills_set)
          explanation = self._generate_explanation(...)
          return MatchResult(...)
      except Exception as e:
          logger.error(...)
          raise
  \<close>
  The handler re-raises, so an error of the body is the error of the call.
\<close>

definition match_resume_to_jd :: "encoder \<Rightarrow> Resume \<Rightarrow> JobDescription \<Rightarrow> py_error + MatchResult" where
  "match_resume_to_jd encode resume jd =
     (let resume_skills = safe_get_skills (Inl resume);
          jd_skills = safe_get_skills (Inr jd);
          similarity_score = fst (calculate_semantic_similarity encode (raw_text resume) (jd_raw_text jd));
          skill_coverage = calculate_skill_coverage resume_skills jd_skills;
          skill_density = calculate_skill_density resume_skills jd_skills;
          resume_skills_set = (if resume_skills \<noteq> [] then py_set resume_skills else []);
          jd_skills_set = (if jd_skills \<noteq> [] then py_set jd_skills else []);
          matching_skills = py_inter resume_skills_set jd_skills_set;
          missing_skills = py_diff jd_skills_set resume_skills_set;
          explanation = generate_explanation similarity_score skill_coverage skill_density
                          matching_skills missing_skills
      in make_MatchResult resume jd similarity_score skill_coverage skill_density
           matching_skills missing_skills explanation)"


section \<open>Batch processing (app/pipeline.py)\<close>

text \<open>
  \<^verbatim>\<open>
  def process_multiple_resumes(self, file_paths: List[str]) -> List[Resume]:
      resumes = []
      failed_files = []
      for file_path in file_paths:
          try:
              resume = self.process_resume(file_path)
              resumes.append(resume)
          except Exception as e:
              logger.error(f"Error processing {file_path}: {e}")
              failed_files.append(file_path)
      if failed_files:
          logger.warning(f"Failed to process {len(failed_files)} files: {failed_files}")
      logger.info(f"Successfully processed {len(resumes)} out of {len(file_paths)} resumes")
      return resumes
  \<close>
  \<open>process_resume\<close> reads the file system through the external text extraction, so it
  is a parameter: any function from a path to a resume or an exception. The logger is the
  only other effect; the records it receives are returned beside the function's value.
\<close>

datatype log_record = LogError string py_error | LogWarning "string list" | LogInfo nat nat

fun process_loop ::
  "(string \<Rightarrow> py_error + Resume) \<Rightarrow> string list \<Rightarrow> Resume list \<times> string list \<times> log_record list
     \<Rightarrow> Resume list \<times> string list \<times> log_record list" where
  "process_loop process_resume [] st = st"
| "process_loop process_resume (file_path # rest) (resumes, failed_files, logged) =
     (case process_resume file_path of
        Inr resume \<Rightarrow> process_loop process_resume rest (resumes @ [resume], failed_files, logged)
      | Inl e \<Rightarrow>
          process_loop process_resume rest
            (resumes, failed_files @ [file_path], logged @ [LogError file_path e]))"

definition process_multiple_resumes ::
  "(string \<Rightarrow> py_error + Resume) \<Rightarrow> string list \<Rightarrow> Resume list \<times> log_record list" where
  "process_multiple_resumes process_resume file_paths =
     (case process_loop process_resume file_paths ([], [], []) of
        (resumes, failed_files, logged) \<Rightarrow>
          (resumes,
           (if failed_files \<noteq> [] then logged @ [LogWarning failed_files] else logged)
             @ [LogInfo (length resumes) (length file_paths)]))"

text \<open>
  What the loop is compared with: the resumes of the paths that succeed, and the paths
  that fail with their exceptions, both in input order.
\<close>

definition succeeded :: "(string \<Rightarrow> py_error + Resume) \<Rightarrow> string list \<Rightarrow> Resume list" where
  "succeeded pr paths = List.map_filter (\<lambda>p. case pr p of Inr r \<Rightarrow> Some r | Inl e \<Rightarrow> None) paths"

definition failed :: "(string \<Rightarrow> py_error + Resume) \<Rightarrow> string list \<Rightarrow> (string \<times> py_error) list" where
  "failed pr paths = List.map_filter (\<lambda>p. case pr p of Inr r \<Rightarrow> None | Inl e \<Rightarrow> Some (p, e)) paths"


section \<open>Ontology store (app/skills.py)\<close>

text \<open>
  The values \<open>yaml.safe_load\<close> can return, as far as the loader tells them apart: scalars,
  sequences (Python lists) and mappings (Python dicts, kept as association lists).
\<close>

datatype yaml_value =
    YNull | YBool bool | YInt int | YStr string
  | YSeq "yaml_value list" | YMap "(yaml_value \<times> yaml_value) list"

text \<open>\<open>isinstance(skill, str)\<close>.\<close>

fun is_str :: "yaml_value \<Rightarrow> bool" where
  "is_str (YStr s) = True"
| "is_str v = False"

text \<open>
  \<^verbatim>\<open>
  for category, skills in ontology.items():
      if not isinstance(skills, list):
          raise ValueError(f"Category '{category}' must contain a list of skills")
      if not all(isinstance(skill, str) for skill in skills):
          raise ValueError(f"All skills in category '{category}' must be strings")
  \<close>
  The messages are kept without the category name.
\<close>

fun validate_structure :: "(yaml_value \<times> yaml_value) list \<Rightarrow> py_error + unit" where
  "validate_structure [] = Inr ()"
| "validate_structure ((category, skills_v) # rest) =
     (case skills_v of
        YSeq entries \<Rightarrow>
          if list_all is_str entries then validate_structure rest
          else Inl (ValueError ''All skills in category must be strings'')
      | _ \<Rightarrow> Inl (ValueError ''Category must contain a list of skills''))"

text \<open>
  \<^verbatim>\<open>
  def load_ontology(path):
      try:
          ontology_path = Path(path)
          if not ontology_path.exists():
              raise FileNotFoundError(f"Ontology file not found: {path}")
          with open(ontology_path, "r", encoding="utf-8") as f:
              ontology = yaml.safe_load(f)
          if not isinstance(ontology, dict):
              raise ValueError("Ontology must be a dictionary")
          for category, skills in ontology.items(): ...
          return ontology
      except yaml.YAMLError as e: raise
      except Exception as e: raise
  \<close>
  The file system and the YAML parser are parameters: \<open>path_exists\<close> is
  \<open>Path(path).exists()\<close>, and \<open>safe_load_file\<close> opens and parses the file, returning the
  parsed value or the exception of \<open>open\<close> or of the parser. Both handlers re-raise.
\<close>

definition load_ontology ::
  "(string \<Rightarrow> bool) \<Rightarrow> (string \<Rightarrow> py_error + yaml_value) \<Rightarrow> string \<Rightarrow> py_error + yaml_value" where
  "load_ontology path_exists safe_load_file path =
     (if \<not> path_exists path then Inl (FileNotFoundError path)
      else
        (case safe_load_file path of
           Inl e \<Rightarrow> Inl e
         | Inr ontology \<Rightarrow>
             (case ontology of
                YMap entries \<Rightarrow>
                  (case validate_structure entries of
                     Inl e \<Rightarrow> Inl e
                   | Inr u \<Rightarrow> Inr ontology)
              | _ \<Rightarrow> Inl (ValueError ''Ontology must be a dictionary''))))"

text \<open>The skill labels of an ontology, and the shape the loader checks on each value.\<close>

fun str_values :: "yaml_value list \<Rightarrow> string list" where
  "str_values [] = []"
| "str_values (YStr s # vs) = s # str_values vs"
| "str_values (v # vs) = str_values vs"

fun category_labels :: "yaml_value \<Rightarrow> string list" where
  "category_labels (YSeq entries) = str_values entries"
| "category_labels v = []"

fun ontology_labels :: "yaml_value \<Rightarrow> string list" where
  "ontology_labels (YMap entries) = concat (map (\<lambda>(category, skills_v). category_labels skills_v) entries)"
| "ontology_labels v = []"

definition is_str_list :: "yaml_value \<Rightarrow> bool" where
  "is_str_list v = (case v of YSeq entries \<Rightarrow> list_all is_str entries | _ \<Rightarrow> False)"


section \<open>Characters of Python strings and regular expressions\<close>

text \<open>
  The character tests of \<open>str\<close> and of the \<open>re\<close> module, on code points below 256:
  \<open>str.lower()\<close> (the upper-case letters are A to Z and the Latin-1 letters 192 to 222
  except the multiplication sign 215; their lower-case partner is 32 above), the class
  \<open>\d\<close> (the decimal digits 0 to 9), the class \<open>\w\<close> (alphanumeric characters and the
  underscore), and the class \<open>[a-z0-9+#.\- ]\<close> of the normalizer.
\<close>

definition code_point :: "char \<Rightarrow> nat" where "code_point c = of_char c"

definition is_upper :: "char \<Rightarrow> bool" where
  "is_upper c =
     (let n = code_point c in (65 \<le> n \<and> n \<le> 90) \<or> (192 \<le> n \<and> n \<le> 222 \<and> n \<noteq> 215))"

definition lower :: "char \<Rightarrow> char" where
  "lower c =
     (if is_upper c
      then (case c of Char b0 b1 b2 b3 b4 b5 b6 b7 \<Rightarrow> Char b0 b1 b2 b3 b4 True b6 b7)
      else c)"

definition is_decimal :: "char \<Rightarrow> bool" where
  "is_decimal c = (48 \<le> code_point c \<and> code_point c \<le> 57)"

definition is_word :: "char \<Rightarrow> bool" where
  "is_word c =
     (let n = code_point c
      in (48 \<le> n \<and> n \<le> 57) \<or> (65 \<le> n \<and> n \<le> 90) \<or> n = 95 \<or> (97 \<le> n \<and> n \<le> 122)
         \<or> n = 170 \<or> n = 178 \<or> n = 179 \<or> n = 181 \<or> (185 \<le> n \<and> n \<le> 186)
         \<or> (188 \<le> n \<and> n \<le> 190) \<or> (192 \<le> n \<and> n \<noteq> 215 \<and> n \<noteq> 247))"

definition allowed :: "char \<Rightarrow> bool" where
  "allowed c =
     (let n = code_point c
      in (97 \<le> n \<and> n \<le> 122) \<or> (48 \<le> n \<and> n \<le> 57)
         \<or> c = CHR ''+'' \<or> c = CHR ''#'' \<or> c = CHR ''.'' \<or> c = CHR ''-'' \<or> c = CHR '' '')"


section \<open>Text normalizer (app/skills.py)\<close>

text \<open>
  \<open>re.sub(r'\bW\b', repl, text)\<close> for a literal word \<open>W\<close>: the text is scanned from the
  left; \<open>prev\<close> tells whether the character before the current position is a word
  character (false at the start of the text). \<open>\b\<close> holds where exactly one of the
  characters before and after the position is a word character. A match is replaced and
  the scan goes on behind it; otherwise the character is copied.
\<close>

fun next_is_word :: "string \<Rightarrow> bool" where
  "next_is_word [] = False"
| "next_is_word (c # cs) = is_word c"

definition matches_word_here :: "string \<Rightarrow> bool \<Rightarrow> string \<Rightarrow> bool" where
  "matches_word_here w prev s =
     (w \<noteq> [] \<and> take (length w) s = w \<and> prev \<noteq> is_word (hd w)
      \<and> is_word (last w) \<noteq> next_is_word (drop (length w) s))"

function (sequential) sub_word :: "string \<Rightarrow> string \<Rightarrow> bool \<Rightarrow> string \<Rightarrow> string" where
  "sub_word w repl prev [] = []"
| "sub_word w repl prev (c # cs) =
     (if matches_word_here w prev (c # cs)
      then repl @ sub_word w repl (is_word (last w)) (drop (length w) (c # cs))
      else c # sub_word w repl (is_word c) cs)"
  by pat_completeness auto
termination
  by (relation "measure (\<lambda>(w, repl, prev, s). length s)") (auto simp: matches_word_here_def)


text \<open>\<open>re.sub(r"\s+", " ", text)\<close>: every maximal run of white space becomes one blank.\<close>

function (sequential) collapse_spaces :: "string \<Rightarrow> string" where
  "collapse_spaces [] = []"
| "collapse_spaces (c # cs) =
     (if py_isspace c then CHR '' '' # collapse_spaces (dropWhile py_isspace cs)
      else c # collapse_spaces cs)"
  by pat_completeness auto
termination
  by (relation "measure length") (auto simp: length_dropWhile_le less_Suc_eq_le)


text \<open>
  \<^verbatim>\<open>
  def normalize(text):
      if not text:
          return ""
      text = text.lower()
      text = re.sub(r'\bml\b', 'machine learning', text)
      text = re.sub(r'\bai\b', 'artificial intelligence', text)
      text = re.sub(r'\bui\b', 'user interface', text)
      text = re.sub(r'\bux\b', 'user experience', text)
      text = re.sub(r'\bapi\b', 'rest apis', text)
      text = re.sub(r'\bdevops\b', 'devops', text)
      text = re.sub(r"[^a-z0-9+#.\- ]", " ", text)
      text = re.sub(r"\s+", " ", text).strip()
      return text
  \<close>
  The name \<open>normalize\<close> is taken in HOL, hence \<open>normalize_text\<close>.
\<close>

definition normalize_text :: "string \<Rightarrow> string" where
  "normalize_text text =
     (if text = [] then []
      else
        (let t0 = map lower text;
             t1 = sub_word ''ml'' ''machine learning'' False t0;
             t2 = sub_word ''ai'' ''artificial intelligence'' False t1;
             t3 = sub_word ''ui'' ''user interface'' False t2;
             t4 = sub_word ''ux'' ''user experience'' False t3;
             t5 = sub_word ''api'' ''rest apis'' False t4;
             t6 = sub_word ''devops'' ''devops'' False t5;
             t7 = map (\<lambda>c. if allowed c then c else CHR '' '') t6;
             t8 = collapse_spaces t7
         in strip t8))"


text \<open>
  \<open>occurs_as_word w False s\<close>: the pattern \<open>\bw\b\<close> matches somewhere in \<open>s\<close>. The
  abbreviations are the words that the normalizer expands.
\<close>

fun occurs_as_word :: "string \<Rightarrow> bool \<Rightarrow> string \<Rightarrow> bool" where
  "occurs_as_word w prev [] = False"
| "occurs_as_word w prev (c # cs) =
     (matches_word_here w prev (c # cs) \<or> occurs_as_word w (is_word c) cs)"

definition abbreviations :: "string list" where
  "abbreviations = [''ml'', ''ai'', ''ui'', ''ux'', ''api'']"


text \<open>
  The shape of a normalized text: only characters of the normalizer's class, white space
  only as single blanks between other characters, none at either end.
\<close>

fun spaced :: "string \<Rightarrow> bool" where
  "spaced [] = True"
| "spaced [c] = (py_isspace c \<longrightarrow> c = CHR '' '')"
| "spaced (c # d # cs) = ((py_isspace c \<longrightarrow> c = CHR '' '' \<and> \<not> py_isspace d) \<and> spaced (d # cs))"


definition normal_form :: "string \<Rightarrow> bool" where
  "normal_form u = ((\<forall>c \<in> set u. allowed c) \<and> spaced u \<and> strip u = u)"


text \<open>The number of characters of a text that are not white space.\<close>

definition visible :: "string \<Rightarrow> nat" where
  "visible s = length (filter (\<lambda>c. \<not> py_isspace c) s)"


section \<open>Regular expressions of the experience heuristic\<close>

text \<open>
  The patterns of \<open>_extract_experience\<close> are built from single characters and character
  classes under a quantifier, one capturing group, and alternatives. An atom is a literal
  (compared without regard to case, since every pattern is used with \<open>re.IGNORECASE\<close>),
  \<open>\d\<close>, \<open>\s\<close>, \<open>\w\<close>, the dot (anything but a line feed), or a bracketed class.
\<close>

datatype atom = Lit char | Digit | Space | Word | Dot | OneOf "atom list"

fun atom_matches :: "atom \<Rightarrow> char \<Rightarrow> bool" where
  "atom_matches (Lit l) c = (lower c = lower l)"
| "atom_matches Digit c = is_decimal c"
| "atom_matches Space c = py_isspace c"
| "atom_matches Word c = is_word c"
| "atom_matches Dot c = (c \<noteq> CHR 0x0A)"
| "atom_matches (OneOf as) c = list_ex (\<lambda>a. atom_matches a c) as"


text \<open>The quantifiers: none, \<open>?\<close>, \<open>*\<close>, \<open>+\<close> (all greedy) and the lazy \<open>*?\<close>.\<close>

datatype quant = Once | Optional | Star | Plus | LazyStar

datatype item = Q atom quant | Group "item list" | Alt "item list list"


text \<open>
  Matching is backtracking search. \<open>m_items p s cap\<close> lists, in the order in which the
  search tries them, every way in which the sequence \<open>p\<close> matches a prefix of \<open>s\<close>: the
  rest of the text behind the match and the text of the group (\<open>cap\<close> is the group so
  far). A greedy quantifier offers its longest span first, a lazy one its shortest, an
  alternation its branches from left to right. The match that \<open>re\<close> reports is the first
  of the list.
\<close>

fun spans_greedy :: "(char \<Rightarrow> bool) \<Rightarrow> string \<Rightarrow> string list" where
  "spans_greedy P [] = [[]]"
| "spans_greedy P (c # cs) = (if P c then spans_greedy P cs @ [c # cs] else [c # cs])"

fun spans_lazy :: "(char \<Rightarrow> bool) \<Rightarrow> string \<Rightarrow> string list" where
  "spans_lazy P [] = [[]]"
| "spans_lazy P (c # cs) = (c # cs) # (if P c then spans_lazy P cs else [])"

fun m_atom :: "atom \<Rightarrow> quant \<Rightarrow> string \<Rightarrow> string list" where
  "m_atom a Once [] = []"
| "m_atom a Once (c # cs) = (if atom_matches a c then [cs] else [])"
| "m_atom a Optional [] = [[]]"
| "m_atom a Optional (c # cs) = (if atom_matches a c then [cs, c # cs] else [c # cs])"
| "m_atom a Star s = spans_greedy (atom_matches a) s"
| "m_atom a Plus [] = []"
| "m_atom a Plus (c # cs) = (if atom_matches a c then spans_greedy (atom_matches a) cs else [])"
| "m_atom a LazyStar s = spans_lazy (atom_matches a) s"


fun m_items :: "item list \<Rightarrow> string \<Rightarrow> string option \<Rightarrow> (string \<times> string option) list"
and m_item :: "item \<Rightarrow> string \<Rightarrow> string option \<Rightarrow> (string \<times> string option) list" where
  "m_items [] s cap = [(s, cap)]"
| "m_items (it # its) s cap = concat (map (\<lambda>(s', cap'). m_items its s' cap') (m_item it s cap))"
| "m_item (Q a q) s cap = map (\<lambda>s'. (s', cap)) (m_atom a q s)"
| "m_item (Group its) s cap =
     map (\<lambda>(s', cap'). (s', Some (take (length s - length s') s))) (m_items its s cap)"
| "m_item (Alt alts) s cap = concat (map (\<lambda>its. m_items its s cap) alts)"


text \<open>
  \<open>re.findall\<close> for a pattern with one group: scan from the left, at each position take
  the first match if there is one, record the text of its group and go on behind the
  match (one character further when the match is empty); otherwise move one character.
\<close>

definition match_at :: "item list \<Rightarrow> string \<Rightarrow> (string \<times> string option) option" where
  "match_at p s = (case m_items p s None of [] \<Rightarrow> None | r # rs \<Rightarrow> Some r)"

definition group_text :: "string option \<Rightarrow> string" where
  "group_text cap = (case cap of None \<Rightarrow> [] | Some g \<Rightarrow> g)"

fun findall :: "item list \<Rightarrow> string \<Rightarrow> string list" where
  "findall p [] = (case match_at p [] of None \<Rightarrow> [] | Some (rest, cap) \<Rightarrow> [group_text cap])"
| "findall p (c # cs) =
     (case match_at p (c # cs) of
        None \<Rightarrow> findall p cs
      | Some (rest, cap) \<Rightarrow>
          group_text cap # (if length rest \<le> length cs then findall p rest else findall p cs))"


text \<open>
  \<^verbatim>\<open>
  patterns = [
      r'(\d+)\s*\+?\s*years?[\s\w]*experience',
      r'experience.*?(\d+)\s*\+?\s*years?',
      r'(\d+)\s*\+?\s*years?.*?experience',
      r'(\d+)\s*yr',
      r'(\d+)\s*yr\.',
  ]
  date_pattern = r'(\d{4}[\s\-\u2013]*\d{4}|\d{4}[\s\-\u2013]*(?:present|current|now))'
  \<close>
  The bracketed class of the date pattern holds the en dash, written \<open>\u2013\<close> here, which lies
  outside the texts modelled here (code points below 256) and is left out.
\<close>

definition lit :: "string \<Rightarrow> item list" where
  "lit w = map (\<lambda>c. Q (Lit c) Once) w"

definition number_of_years :: "item list" where
  "number_of_years =
     [Group [Q Digit Plus], Q Space Star, Q (Lit CHR ''+'') Optional, Q Space Star]
     @ lit ''year'' @ [Q (Lit CHR ''s'') Optional]"

definition experience_patterns :: "item list list" where
  "experience_patterns =
     [number_of_years @ [Q (OneOf [Space, Word]) Star] @ lit ''experience'',
      lit ''experience'' @ [Q Dot LazyStar] @ number_of_years,
      number_of_years @ [Q Dot LazyStar] @ lit ''experience'',
      [Group [Q Digit Plus], Q Space Star] @ lit ''yr'',
      [Group [Q Digit Plus], Q Space Star] @ lit ''yr'' @ [Q (Lit CHR ''.'') Once]]"

definition four_digits :: "item list" where
  "four_digits = [Q Digit Once, Q Digit Once, Q Digit Once, Q Digit Once]"

definition date_pattern :: "item list" where
  "date_pattern =
     [Group [Alt [four_digits @ [Q (OneOf [Space, Lit CHR ''-'']) Star] @ four_digits,
                  four_digits @ [Q (OneOf [Space, Lit CHR ''-'']) Star]
                    @ [Alt [lit ''present'', lit ''current'', lit ''now'']]]]]"


text \<open>
  A Python \<open>float\<close> that the heuristic can produce: a finite double, kept as the real
  number it denotes, or \<open>inf\<close>. No negative value and no \<open>nan\<close> arises here.
\<close>

datatype pyfloat = Finite real | PosInf

fun float_le :: "pyfloat \<Rightarrow> pyfloat \<Rightarrow> bool" where
  "float_le (Finite x) (Finite y) = (x \<le> y)"
| "float_le a PosInf = True"
| "float_le PosInf (Finite y) = False"

definition float_lt :: "pyfloat \<Rightarrow> pyfloat \<Rightarrow> bool" where
  "float_lt a b = (\<not> float_le b a)"

text \<open>
  The conversion of a non-negative integer to a double, as \<open>float\<close> does it for a string of
  decimal digits and for an \<open>int\<close>: the nearest double, a tie going to the even
  significand of 53 bits; \<open>inf\<close> when the rounded value reaches \<open>2 ^ 1024\<close>.
  \<open>double_shift n\<close> is the number of low bits that do not fit the significand.
\<close>

function double_shift :: "nat \<Rightarrow> nat" where
  "double_shift n = (if n < 2 ^ 53 then 0 else Suc (double_shift (n div 2)))"
  by pat_completeness auto
termination
proof (relation "measure (\<lambda>n. n)")
  show "wf (measure (\<lambda>n. n))" by simp
next
  fix n :: nat
  assume "\<not> n < 2 ^ 53"
  then have "0 < n" by (cases "n = 0") simp_all
  then show "(n div 2, n) \<in> measure (\<lambda>n. n)" by simp
qed

definition nearest_double :: "nat \<Rightarrow> nat option" where
  "nearest_double n =
     (let e = double_shift n;
          q = n div 2 ^ e;
          r = n mod 2 ^ e;
          q' = (if 2 ^ e < 2 * r \<or> (2 * r = 2 ^ e \<and> odd q) then q + 1 else q);
          v = q' * 2 ^ e
      in if 2 ^ 1024 \<le> v then None else Some v)"

definition round_double :: "nat \<Rightarrow> pyfloat" where
  "round_double n = (case nearest_double n of None \<Rightarrow> PosInf | Some v \<Rightarrow> Finite (real v))"

text \<open>
  \<open>str.isdigit()\<close> (decimal digits and the three superscript digits of Latin-1),
  \<open>float(s)\<close> on a string (only a non-empty string of decimal digits is given a value
  here; the heuristic passes nothing else that converts), \<open>max\<close> of a list, which raises
  on the empty list and keeps the first of equal maxima, and \<open>min\<close> of two values.
\<close>

definition py_isdigit :: "char \<Rightarrow> bool" where
  "py_isdigit c = (is_decimal c \<or> code_point c = 178 \<or> code_point c = 179 \<or> code_point c = 185)"

definition str_isdigit :: "string \<Rightarrow> bool" where
  "str_isdigit s = (s \<noteq> [] \<and> list_all py_isdigit s)"

definition digit_value :: "char \<Rightarrow> nat" where
  "digit_value c = code_point c - 48"

definition decimal_value :: "string \<Rightarrow> nat" where
  "decimal_value s = foldl (\<lambda>n c. 10 * n + digit_value c) 0 s"

definition py_float :: "string \<Rightarrow> py_error + pyfloat" where
  "py_float s = (if s \<noteq> [] \<and> list_all is_decimal s then Inr (round_double (decimal_value s))
                 else Inl (ValueError ''could not convert string to float''))"

fun float_all :: "string list \<Rightarrow> py_error + pyfloat list" where
  "float_all [] = Inr []"
| "float_all (m # ms) =
     (case py_float m of
        Inl e \<Rightarrow> Inl e
      | Inr x \<Rightarrow> (case float_all ms of Inl e \<Rightarrow> Inl e | Inr xs \<Rightarrow> Inr (x # xs)))"

definition py_max :: "pyfloat list \<Rightarrow> py_error + pyfloat" where
  "py_max xs = (case xs of [] \<Rightarrow> Inl (ValueError ''max() arg is an empty sequence'')
                | y # ys \<Rightarrow> Inr (foldl (\<lambda>m x. if float_lt m x then x else m) y ys))"

definition py_min :: "pyfloat \<Rightarrow> pyfloat \<Rightarrow> pyfloat" where
  "py_min a b = (if float_lt b a then b else a)"

definition highest_number :: "string list \<Rightarrow> py_error + pyfloat" where
  "highest_number matches =
     (case float_all (filter str_isdigit matches) of Inl e \<Rightarrow> Inl e | Inr xs \<Rightarrow> py_max xs)"


text \<open>
  \<^verbatim>\<open>
  def _extract_experience(self, text):
      try:
          for pattern in patterns:
              matches = re.findall(pattern, text, re.IGNORECASE)
              if matches:
                  years = max([float(match) for match in matches if match.isdigit()])
                  return years
          date_matches = re.findall(date_pattern, text, re.IGNORECASE)
          if date_matches:
              return min(float(len(date_matches)), 15.0)
          return 0.0
      except Exception as e:
          logger.error(...)
          return 0.0
  \<close>
\<close>

fun try_patterns :: "item list list \<Rightarrow> string \<Rightarrow> (py_error + pyfloat) option" where
  "try_patterns [] text = None"
| "try_patterns (pattern # rest) text =
     (let matches = findall pattern text
      in if matches \<noteq> [] then Some (highest_number matches) else try_patterns rest text)"

definition extract_experience :: "string \<Rightarrow> pyfloat" where
  "extract_experience text =
     (case try_patterns experience_patterns text of
        Some (Inr years) \<Rightarrow> years
      | Some (Inl e) \<Rightarrow> Finite 0
      | None \<Rightarrow>
          (let date_matches = findall date_pattern text
           in if date_matches \<noteq> []
              then py_min (round_double (length date_matches)) (Finite 15) else Finite 0))"


text \<open>
  Notions for reasoning about captures: an item without a group, a non-empty string of
  decimal digits, and a pattern all of whose matches capture such a string.
\<close>

fun groupless :: "item \<Rightarrow> bool" where
  "groupless (Q a q) = True"
| "groupless (Group its) = False"
| "groupless (Alt alts) = list_all (list_all groupless) alts"

definition digits_only :: "string \<Rightarrow> bool" where
  "digits_only g = (g \<noteq> [] \<and> list_all is_decimal g)"

definition digit_capture :: "string option \<Rightarrow> bool" where
  "digit_capture cap = (case cap of None \<Rightarrow> False | Some g \<Rightarrow> digits_only g)"


definition captures_digits :: "item list \<Rightarrow> bool" where
  "captures_digits p = (\<forall>s cap. \<forall>r \<in> set (m_items p s cap). digit_capture (snd r))"


section \<open>Sample inputs\<close>

text \<open>
  Concrete collaborators and records used where a property is evaluated: an embedding model
  that returns fixed vectors, one that raises, a resume and a job description with given
  text and skills, a \<open>process_resume\<close> that raises, and ontology sources.
\<close>

definition const_encoder :: "real list list \<Rightarrow> encoder" where
  "const_encoder vs = (\<lambda>texts. Inr vs)"

definition failing_encoder :: "py_error \<Rightarrow> encoder" where
  "failing_encoder e = (\<lambda>texts. Inl e)"

definition sample_resume :: "string \<Rightarrow> string list \<Rightarrow> Resume" where
  "sample_resume txt sk = \<lparr> raw_text = txt, email = None, phone = None, skills = sk,
      skills_by_category = [], experience = 0, education = None \<rparr>"

definition sample_jd :: "string \<Rightarrow> string list \<Rightarrow> string list \<Rightarrow> JobDescription" where
  "sample_jd txt req pref = \<lparr> jd_raw_text = txt, required_skills = req, preferred_skills = pref,
      jd_skills_by_category = [], title = None, company = None \<rparr>"

definition failing_process_resume :: "py_error \<Rightarrow> string \<Rightarrow> py_error + Resume" where
  "failing_process_resume e = (\<lambda>file_path. Inl e)"

definition present :: "string \<Rightarrow> bool" where
  "present = (\<lambda>path. True)"

definition absent :: "string \<Rightarrow> bool" where
  "absent = (\<lambda>path. False)"

definition source_of :: "yaml_value \<Rightarrow> string \<Rightarrow> py_error + yaml_value" where
  "source_of v = (\<lambda>path. Inr v)"

definition sample_process_resume :: "string list \<Rightarrow> string \<Rightarrow> py_error + Resume" where
  "sample_process_resume readable =
     (\<lambda>file_path. if file_path \<in> set readable then Inr (sample_resume file_path [])
                  else Inl (FileNotFoundError file_path))"

section \<open>Properties of the evaluation metrics\<close>



text \<open>
  Claim C10, as stated, says that the empty list makes \<open>precision_at_k\<close> raise for any
  \<open>k\<close>. For a negative \<open>k\<close> nothing is clamped, the slice is empty and \<open>0 / k\<close> is a
  value: the call returns.
\<close>

theorem precision_at_k_empty_negative_returns:
  "precision_at_k [] (- 1) = Inr 0"
  by (simp add: precision_at_k_def py_slice_to_def sum_bools_def)

text \<open>
  Claim C10, amended. \<open>precision_at_k\<close> is not total: it raises \<open>ZeroDivisionError\<close>
  exactly when \<open>k = 0\<close>, or the list is empty and \<open>k > 0\<close> (the clamped \<open>k\<close> is then 0), and
  it raises nothing else. So it raises on the empty list for every \<open>k \<ge> 0\<close>, it returns
  for every non-empty list with \<open>k \<ge> 1\<close>, and it also returns for every negative \<open>k\<close>.
\<close>

theorem precision_at_k_partial:
  "(precision_at_k rs k = Inl ZeroDivisionError \<longleftrightarrow> k = 0 \<or> (rs = [] \<and> 0 < k))
   \<and> (\<forall>e. precision_at_k rs k = Inl e \<longrightarrow> e = ZeroDivisionError)
   \<and> (0 \<le> k \<longrightarrow> precision_at_k [] k = Inl ZeroDivisionError)
   \<and> (rs \<noteq> [] \<and> 1 \<le> k \<longrightarrow> (\<exists>p. precision_at_k rs k = Inr p))
   \<and> (k < 0 \<longrightarrow> (\<exists>p. precision_at_k rs k = Inr p))"
  by (auto simp: precision_at_k_def Let_def)

theorem precision_at_k_partial_witness:
  "precision_at_k [] 3 = Inl ZeroDivisionError
   \<and> precision_at_k [True] 0 = Inl ZeroDivisionError
   \<and> (\<exists>p. precision_at_k [True, False] 1 = Inr p)
   \<and> (\<exists>p. precision_at_k [True, False] (- 1) = Inr p)"
  using precision_at_k_partial [of "[]" 3] precision_at_k_partial [of "[True]" 0]
    precision_at_k_partial [of "[True, False]" 1] precision_at_k_partial [of "[True, False]" "- 1"]
  by simp



section \<open>Properties of the matcher\<close>

lemma py_set_set [simp]: "set (py_set xs) = set xs" by (simp add: py_set_def)

lemma py_set_distinct [simp]: "distinct (py_set xs)" by (simp add: py_set_def)

lemma py_set_nil [simp]: "py_set xs = [] \<longleftrightarrow> xs = []"
  by (metis py_set_set set_empty)

lemma py_inter_set [simp]: "set (py_inter a b) = set a \<inter> set b" by (auto simp: py_inter_def)

lemma py_diff_set [simp]: "set (py_diff a b) = set a - set b" by (auto simp: py_diff_def)

lemma py_inter_distinct [simp]: "distinct a \<Longrightarrow> distinct (py_inter a b)" by (simp add: py_inter_def)

lemma py_diff_distinct [simp]: "distinct a \<Longrightarrow> distinct (py_diff a b)" by (simp add: py_diff_def)

lemma length_py_set: "length (py_set xs) = card (set xs)"
  by (simp add: py_set_def length_remdups_card_conv)

lemma length_py_inter: "length (py_inter (py_set r) (py_set j)) = card (set r \<inter> set j)"
proof -
  have "distinct (py_inter (py_set r) (py_set j))" by simp
  from distinct_card[OF this] show ?thesis by simp
qed

lemma py_set_if: "(if xs \<noteq> [] then py_set xs else []) = py_set xs"
  by (simp add: py_set_def)

lemma coverage_eq:
  "calculate_skill_coverage r j =
     (if j = [] then 0 else real (card (set r \<inter> set j)) / real (card (set j)))"
proof (cases "j = []")
  case True then show ?thesis by (simp add: calculate_skill_coverage_def)
next
  case False
  show ?thesis
  proof (cases "r = []")
    case True
    with False show ?thesis by (simp add: calculate_skill_coverage_def Let_def py_inter_def)
  next
    case rne: False
    with False show ?thesis
      by (simp add: calculate_skill_coverage_def Let_def length_py_set length_py_inter)
  qed
qed

lemma density_eq:
  "calculate_skill_density r j =
     (if r = [] then 0 else real (card (set r \<inter> set j)) / real (card (set r)))"
proof (cases "r = []")
  case True then show ?thesis by (simp add: calculate_skill_density_def)
next
  case False
  show ?thesis
  proof (cases "j = []")
    case True
    with False show ?thesis by (simp add: calculate_skill_density_def Let_def py_inter_def)
  next
    case jne: False
    with False show ?thesis
      by (simp add: calculate_skill_density_def Let_def length_py_set length_py_inter)
  qed
qed

lemma coverage_in_unit: "in_unit (calculate_skill_coverage r j)"
proof -
  have "card (set r \<inter> set j) \<le> card (set j)" by (simp add: card_mono)
  then show ?thesis by (auto simp: in_unit_def coverage_eq divide_le_eq card_gt_0_iff)
qed

lemma density_in_unit: "in_unit (calculate_skill_density r j)"
proof -
  have "card (set r \<inter> set j) \<le> card (set r)" by (simp add: card_mono)
  then show ?thesis by (auto simp: in_unit_def density_eq divide_le_eq card_gt_0_iff)
qed

lemma match_result_cases:
  "match_resume_to_jd encode resume jd =
     (let s = fst (calculate_semantic_similarity encode (raw_text resume) (jd_raw_text jd));
          R = skills resume; J = jd_all_skills jd;
          matching = py_inter (py_set R) (py_set J);
          missing = py_diff (py_set J) (py_set R)
      in if in_unit s
         then Inr \<lparr> mr_resume = resume, mr_job_description = jd, similarity_score = s,
                    skill_coverage = calculate_skill_coverage R J,
                    skill_density = calculate_skill_density R J,
                    matching_skills = matching, missing_skills = missing,
                    explanation = generate_explanation s (calculate_skill_coverage R J)
                       (calculate_skill_density R J) matching missing \<rparr>
         else Inl (ValidationError ''similarity_score''))"
  by (simp add: match_resume_to_jd_def make_MatchResult_def Let_def safe_get_skills_def
        coverage_in_unit density_in_unit py_set_if)

text \<open>
  Claim C4. For all skill lists \<open>R\<close> and \<open>J\<close>, \<open>calculate_skill_coverage R J\<close> is
  \<open>|set R \<inter> set J| / |set J|\<close> when \<open>J\<close> is not empty and 0 when it is; it lies in
  \<open>[0, 1]\<close>; and it is 1 exactly when \<open>set J \<subseteq> set R\<close> and \<open>J\<close> is not empty.
\<close>

theorem skill_coverage_spec:
  "(J \<noteq> [] \<longrightarrow> calculate_skill_coverage R J = real (card (set R \<inter> set J)) / real (card (set J)))
   \<and> (J = [] \<longrightarrow> calculate_skill_coverage R J = 0)
   \<and> 0 \<le> calculate_skill_coverage R J \<and> calculate_skill_coverage R J \<le> 1
   \<and> (calculate_skill_coverage R J = 1 \<longleftrightarrow> set J \<subseteq> set R \<and> J \<noteq> [])"
proof -
  have fin: "finite (set J)" by simp
  have le: "card (set R \<inter> set J) \<le> card (set J)" by (simp add: card_mono)
  have pos: "J \<noteq> [] \<Longrightarrow> 0 < card (set J)" by (simp add: card_gt_0_iff)
  have one: "J \<noteq> [] \<Longrightarrow> (real (card (set R \<inter> set J)) / real (card (set J)) = 1) = (set J \<subseteq> set R)"
  proof -
    assume ne: "J \<noteq> []"
    have "(real (card (set R \<inter> set J)) / real (card (set J)) = 1) = (card (set R \<inter> set J) = card (set J))"
      using pos[OF ne] ne by auto
    also have "\<dots> = (set R \<inter> set J = set J)"
      using card_subset_eq[OF fin, of "set R \<inter> set J"] by auto
    also have "\<dots> = (set J \<subseteq> set R)" by auto
    finally show ?thesis .
  qed
  show ?thesis
    using le pos one by (auto simp: coverage_eq divide_le_eq)
qed

theorem skill_coverage_spec_witness:
  "calculate_skill_coverage [''python'', ''sql''] [''python''] = 1
   \<and> calculate_skill_coverage [''python''] [] = 0
   \<and> calculate_skill_coverage [''python''] [''python'', ''docker''] \<noteq> 1
   \<and> calculate_skill_coverage [''python''] [''python'', ''docker''] \<le> 1"
  using skill_coverage_spec [of "[''python'']" "[''python'', ''sql'']"]
    skill_coverage_spec [of "[]" "[''python'']"]
    skill_coverage_spec [of "[''python'', ''docker'']" "[''python'']"]
  by simp

text \<open>
  What the matcher computes: \<open>matching_skills\<close> and \<open>missing_skills\<close> split the job
  description's all-skills (required followed by preferred) into those the resume has
  and those it lacks.
\<close>

lemma match_skill_sets:
  "match_resume_to_jd encode resume jd = Inr m \<Longrightarrow>
     set (matching_skills m) = set (skills resume) \<inter> set (jd_all_skills jd)
   \<and> set (missing_skills m) = set (jd_all_skills jd) - set (skills resume)
   \<and> set (matching_skills m) \<inter> set (missing_skills m) = {}
   \<and> jd_all_skills jd = required_skills jd @ preferred_skills jd"
proof -
  assume a: "match_resume_to_jd encode resume jd = Inr m"
  define R where "R = skills resume"
  define J where "J = jd_all_skills jd"
  from a have "matching_skills m = py_inter (py_set R) (py_set J)"
    and "missing_skills m = py_diff (py_set J) (py_set R)"
    by (auto simp: match_result_cases Let_def R_def J_def split: if_splits)
  then show ?thesis
    unfolding R_def [symmetric] J_def [symmetric] by (auto simp: J_def jd_all_skills_def)
qed

text \<open>
  For a job description without preferred skills, as the pipeline builds them all, the
  missing skills are the required skills that the resume lacks.
\<close>

lemma match_without_preferred:
  "preferred_skills jd = [] \<Longrightarrow> match_resume_to_jd encode resume jd = Inr m \<Longrightarrow>
     set (matching_skills m) = set (skills resume) \<inter> set (jd_all_skills jd)
   \<and> set (missing_skills m) = set (required_skills jd) - set (skills resume)
   \<and> set (matching_skills m) \<inter> set (missing_skills m) = {}"
proof -
  assume p: "preferred_skills jd = []" and m: "match_resume_to_jd encode resume jd = Inr m"
  from p have "jd_all_skills jd = required_skills jd" by (simp add: jd_all_skills_def)
  with match_skill_sets[OF m] show ?thesis by auto
qed

text \<open>
  Claim C3. The result's \<open>missing_skills\<close> are to be the job description's required
  skills minus the resume's skills. The code takes them from all skills of the job
  description: for a resume with \<open>python\<close> and a job description that requires
  \<open>python\<close> and prefers \<open>docker\<close>, no required skill is missing, yet the result lists
  \<open>docker\<close> as a missing skill.
\<close>

theorem match_missing_preferred_skill:
  "map_sum id missing_skills
     (match_resume_to_jd (const_encoder [[1], [1]]) (sample_resume ''python developer'' [''python''])
        (sample_jd ''python job'' [''python''] [''docker'']))
   = Inr [''docker'']
   \<and> set (required_skills (sample_jd ''python job'' [''python''] [''docker'']))
       - set (skills (sample_resume ''python developer'' [''python''])) = {}"
  by (simp add: match_result_cases Let_def calculate_semantic_similarity_def const_encoder_def strip_def py_isspace_def
      cosine_similarity_def normalize_row_def l2_norm_def dot_def in_unit_def sample_resume_def sample_jd_def
      jd_all_skills_def py_set_def py_inter_def py_diff_def)

text \<open>
  Claim C1, as stated, says that a failure of the embedding step reaches the caller of
  \<open>match_resume_to_jd\<close>. With a model that raises, the call returns a result whose
  \<open>similarity_score\<close> is 0.
\<close>

theorem match_swallow_counterexample:
  "map_sum id similarity_score
     (match_resume_to_jd (failing_encoder (ModelError ''out of memory''))
        (sample_resume ''python developer'' [''python''])
        (sample_jd ''python job'' [''python''] []))
   = Inr 0"
  by (simp add: match_result_cases Let_def calculate_semantic_similarity_def failing_encoder_def strip_def py_isspace_def
      in_unit_def sample_resume_def sample_jd_def)

text \<open>
  Claim C1, amended. If the embedding model raises on the two raw texts,
  \<open>calculate_semantic_similarity\<close> catches the exception and returns 0.0, and
  \<open>match_resume_to_jd\<close> returns a \<open>MatchResult\<close> whose \<open>similarity_score\<close> is 0.0: the
  failure does not reach the caller.
\<close>

theorem embedding_failure_swallowed:
  "encode [raw_text resume, jd_raw_text jd] = Inl e \<Longrightarrow>
     fst (calculate_semantic_similarity encode (raw_text resume) (jd_raw_text jd)) = 0
   \<and> (\<exists>m. match_resume_to_jd encode resume jd = Inr m \<and> similarity_score m = 0)"
proof -
  assume f: "encode [raw_text resume, jd_raw_text jd] = Inl e"
  then have z: "fst (calculate_semantic_similarity encode (raw_text resume) (jd_raw_text jd)) = 0"
    by (simp add: calculate_semantic_similarity_def)
  then show ?thesis by (simp add: match_result_cases Let_def in_unit_def)
qed

theorem embedding_failure_swallowed_witness:
  "\<exists>m. match_resume_to_jd (failing_encoder (ModelError ''out of memory''))
          (sample_resume ''python developer'' [''python''])
          (sample_jd ''python job'' [''python''] []) = Inr m \<and> similarity_score m = 0"
  using embedding_failure_swallowed [of "failing_encoder (ModelError ''out of memory'')"
      "sample_resume ''python developer'' [''python'']" "sample_jd ''python job'' [''python''] []"
      "ModelError ''out of memory''"]
  by (simp add: failing_encoder_def)

text \<open>
  Claim C2. Blank input gives 0.0 and no call of the model, as the claim says. The
  returned cosine is not clipped, though: for two texts that the model embeds as opposite
  unit vectors, \<open>calculate_semantic_similarity\<close> returns \<open>-1\<close>, outside \<open>[0, 1]\<close>.
\<close>

lemma similarity_blank:
  "strip text1 = [] \<or> strip text2 = [] \<Longrightarrow>
     calculate_semantic_similarity encode text1 text2 = (0, [])"
  by (simp add: calculate_semantic_similarity_def)

theorem similarity_negative:
  "fst (calculate_semantic_similarity (const_encoder [[1, 0], [- 1, 0]]) ''good'' ''bad'') = - 1"
  by (simp add: calculate_semantic_similarity_def const_encoder_def strip_def py_isspace_def
      cosine_similarity_def normalize_row_def l2_norm_def dot_def)

text \<open>
  At such an input the matcher cannot build its result: the score fails the validation of
  \<open>MatchResult\<close>, and \<open>match_resume_to_jd\<close> raises.
\<close>

lemma match_negative_similarity_rejected:
  "match_resume_to_jd (const_encoder [[1, 0], [- 1, 0]])
     (sample_resume ''good'' [''python'']) (sample_jd ''bad'' [''python''] [])
   = Inl (ValidationError ''similarity_score'')"
  by (simp add: match_result_cases Let_def calculate_semantic_similarity_def const_encoder_def
        strip_def py_isspace_def cosine_similarity_def normalize_row_def l2_norm_def dot_def
        in_unit_def sample_resume_def sample_jd_def)


section \<open>Properties of batch processing\<close>

lemma process_loop_eq:
  "process_loop pr paths (rs, fs, lg) =
     (rs @ succeeded pr paths, fs @ map fst (failed pr paths),
      lg @ map (\<lambda>(p, e). LogError p e) (failed pr paths))"
  by (induction paths arbitrary: rs fs lg)
     (auto simp: succeeded_def failed_def List.map_filter_simps split: sum.splits)

lemma succ_failed_length: "length (succeeded pr paths) + length (failed pr paths) = length paths"
  by (induction paths) (auto simp: succeeded_def failed_def List.map_filter_simps split: sum.splits)

text \<open>
  Claim C6, as stated, has the batch operation return the failures beside the successes.
  The returned value is the list of resumes only: when the single path fails it is the
  empty list, the same value as for no paths at all.
\<close>

theorem process_multiple_resumes_drops_failures:
  "fst (process_multiple_resumes (failing_process_resume (FileNotFoundError ''missing.pdf'')) [''missing.pdf'']) = []
   \<and> fst (process_multiple_resumes (failing_process_resume (FileNotFoundError ''missing.pdf'')) []) = []"
  by (simp add: process_multiple_resumes_def failing_process_resume_def)

text \<open>
  Claim C6, amended. For every list of paths, \<open>process_multiple_resumes\<close> processes each
  path on its own, goes on after a failure, and returns only the resumes of the paths
  that succeeded, in input order. The failed paths are not returned: each is logged as an
  error, followed by one warning that lists them (when there is any) and one summary
  line. Every path is either a returned resume or a logged failure.
\<close>

theorem process_multiple_resumes_returns_successes:
  "fst (process_multiple_resumes pr paths) = succeeded pr paths
   \<and> snd (process_multiple_resumes pr paths) =
       map (\<lambda>(p, e). LogError p e) (failed pr paths)
       @ (if failed pr paths \<noteq> [] then [LogWarning (map fst (failed pr paths))] else [])
       @ [LogInfo (length (succeeded pr paths)) (length paths)]
   \<and> length (succeeded pr paths) + length (failed pr paths) = length paths"
  by (simp add: process_multiple_resumes_def process_loop_eq succ_failed_length)

theorem process_multiple_resumes_returns_successes_witness:
  "fst (process_multiple_resumes (sample_process_resume [''a.txt'', ''c.txt''])
          [''a.txt'', ''b.pdf'', ''c.txt''])
     = [sample_resume ''a.txt'' [], sample_resume ''c.txt'' []]
   \<and> snd (process_multiple_resumes (sample_process_resume [''a.txt'', ''c.txt''])
          [''a.txt'', ''b.pdf'', ''c.txt''])
     = [LogError ''b.pdf'' (FileNotFoundError ''b.pdf''), LogWarning [''b.pdf''], LogInfo 2 3]"
  using process_multiple_resumes_returns_successes
          [of "sample_process_resume [''a.txt'', ''c.txt'']" "[''a.txt'', ''b.pdf'', ''c.txt'']"]
  by (simp add: succeeded_def failed_def sample_process_resume_def List.map_filter_simps)


section \<open>Properties of the ontology loader\<close>

lemma validate_structure_ok:
  "validate_structure entries = Inr u \<longleftrightarrow> list_all (\<lambda>(category, skills_v). is_str_list skills_v) entries"
  by (induction entries rule: validate_structure.induct)
     (auto simp: is_str_list_def split: yaml_value.splits)

lemma validate_structure_error:
  "validate_structure entries = Inl e \<Longrightarrow> \<exists>msg. e = ValueError msg"
  by (induction entries rule: validate_structure.induct)
     (auto split: yaml_value.splits if_splits)

text \<open>
  Claim C8, as stated, says that a loaded ontology has string keys and non-empty skill
  labels. The loader accepts a mapping with an integer key, and one whose list holds the
  empty string.
\<close>

theorem load_ontology_empty_label:
  "load_ontology present
     (source_of (YMap [(YStr ''prog'', YSeq [YStr []]), (YInt 7, YSeq [YStr ''sql''])]))
     ''data/skills_ontology.yml''
   = Inr (YMap [(YStr ''prog'', YSeq [YStr []]), (YInt 7, YSeq [YStr ''sql''])])
   \<and> ontology_labels (YMap [(YStr ''prog'', YSeq [YStr []]), (YInt 7, YSeq [YStr ''sql''])])
       = [[], ''sql'']"
  by (simp add: load_ontology_def present_def source_of_def)

text \<open>
  Claim C8, amended. The loader succeeds, returning the parsed value, exactly when the
  source exists and parses to a mapping (with keys of any kind) whose values are all lists
  of strings (empty strings included). Otherwise it fails: with \<open>FileNotFoundError\<close>
  when the source is missing, with the exception of \<open>open\<close> or of the parser when that
  raises, and with a \<open>ValueError\<close> when the parsed value is not a mapping or a value is
  not a list of strings.
\<close>

theorem load_ontology_succeeds_iff:
  "(load_ontology path_exists safe_load_file path = Inr ont \<longleftrightarrow>
      path_exists path \<and> safe_load_file path = Inr ont
      \<and> (\<exists>entries. ont = YMap entries
            \<and> list_all (\<lambda>(category, skills_v). is_str_list skills_v) entries))
   \<and> (\<not> path_exists path \<longrightarrow>
        load_ontology path_exists safe_load_file path = Inl (FileNotFoundError path))
   \<and> (path_exists path \<and> safe_load_file path = Inl e \<longrightarrow>
        load_ontology path_exists safe_load_file path = Inl e)
   \<and> (path_exists path \<and> safe_load_file path = Inr v
        \<and> \<not> (\<exists>entries. v = YMap entries
                 \<and> list_all (\<lambda>(category, skills_v). is_str_list skills_v) entries) \<longrightarrow>
        (\<exists>msg. load_ontology path_exists safe_load_file path = Inl (ValueError msg)))"
proof -
  let ?ok = "list_all (\<lambda>(category :: yaml_value, skills_v). is_str_list skills_v)"
  let ?load = "load_ontology path_exists safe_load_file path"
  have good: "\<And>entries. ?ok entries \<Longrightarrow> validate_structure entries = Inr ()"
    using validate_structure_ok by simp
  have bad: "\<And>entries. \<not> ?ok entries \<Longrightarrow> \<exists>msg. validate_structure entries = Inl (ValueError msg)"
  proof -
    fix entries assume n: "\<not> ?ok entries"
    then have "\<not> (\<exists>u. validate_structure entries = Inr u)"
      using validate_structure_ok by blast
    then obtain e where "validate_structure entries = Inl e"
      by (cases "validate_structure entries") auto
    then show "\<exists>msg. validate_structure entries = Inl (ValueError msg)"
      using validate_structure_error by blast
  qed
  have c1: "?load = Inr ont \<longleftrightarrow>
      path_exists path \<and> safe_load_file path = Inr ont \<and> (\<exists>entries. ont = YMap entries \<and> ?ok entries)"
  proof (cases "path_exists path")
    case False then show ?thesis by (simp add: load_ontology_def)
  next
    case True
    show ?thesis
    proof (cases "safe_load_file path")
      case (Inl e') with True show ?thesis by (simp add: load_ontology_def)
    next
      case (Inr w)
      show ?thesis
      proof (cases "\<exists>entries. w = YMap entries")
        case False
        with True Inr show ?thesis
          by (cases w) (auto simp: load_ontology_def)
      next
        case True': True
        then obtain entries where w: "w = YMap entries" by blast
        show ?thesis
        proof (cases "?ok entries")
          case True
          with \<open>path_exists path\<close> Inr w good[OF True] show ?thesis
            by (auto simp: load_ontology_def)
        next
          case False
          from bad[OF False] obtain msg where "validate_structure entries = Inl (ValueError msg)" by blast
          with \<open>path_exists path\<close> Inr w False show ?thesis
            by (auto simp: load_ontology_def)
        qed
      qed
    qed
  qed
  have c2: "\<not> path_exists path \<longrightarrow> ?load = Inl (FileNotFoundError path)"
    by (simp add: load_ontology_def)
  have c3: "path_exists path \<and> safe_load_file path = Inl e \<longrightarrow> ?load = Inl e"
    by (simp add: load_ontology_def)
  have c4: "path_exists path \<and> safe_load_file path = Inr v
        \<and> \<not> (\<exists>entries. v = YMap entries \<and> ?ok entries) \<longrightarrow>
        (\<exists>msg. ?load = Inl (ValueError msg))"
  proof (intro impI, elim conjE)
    assume p: "path_exists path" and l: "safe_load_file path = Inr v"
      and n: "\<not> (\<exists>entries. v = YMap entries \<and> ?ok entries)"
    show "\<exists>msg. ?load = Inl (ValueError msg)"
    proof (cases v)
      case (YMap entries)
      with n have "\<not> ?ok entries" by simp
      from bad[OF this] obtain msg where "validate_structure entries = Inl (ValueError msg)" by blast
      with p l YMap show ?thesis by (simp add: load_ontology_def)
    qed (use p l in \<open>simp_all add: load_ontology_def\<close>)
  qed
  from c1 c2 c3 c4 show ?thesis by blast
qed

theorem load_ontology_succeeds_iff_witness:
  "load_ontology present (source_of (YMap [(YStr ''prog'', YSeq [YStr ''python'', YStr ''sql''])]))
     ''data/skills_ontology.yml''
   = Inr (YMap [(YStr ''prog'', YSeq [YStr ''python'', YStr ''sql''])])
   \<and> (\<exists>msg. load_ontology present (source_of (YMap [(YStr ''prog'', YStr ''python'')]))
         ''data/skills_ontology.yml'' = Inl (ValueError msg))
   \<and> (\<exists>msg. load_ontology present (source_of (YMap [(YStr ''prog'', YSeq [YInt 3])]))
         ''data/skills_ontology.yml'' = Inl (ValueError msg))
   \<and> (\<exists>msg. load_ontology present (source_of (YSeq [YStr ''python'']))
         ''data/skills_ontology.yml'' = Inl (ValueError msg))
   \<and> load_ontology absent (source_of YNull) ''nowhere.yml'' = Inl (FileNotFoundError ''nowhere.yml'')"
  using load_ontology_succeeds_iff [of present "source_of (YMap [(YStr ''prog'', YSeq [YStr ''python'', YStr ''sql''])])"
      "''data/skills_ontology.yml''" "YMap [(YStr ''prog'', YSeq [YStr ''python'', YStr ''sql''])]"]
    load_ontology_succeeds_iff [of present "source_of (YMap [(YStr ''prog'', YStr ''python'')])"
      "''data/skills_ontology.yml''" _ _ "YMap [(YStr ''prog'', YStr ''python'')]"]
    load_ontology_succeeds_iff [of present "source_of (YMap [(YStr ''prog'', YSeq [YInt 3])])"
      "''data/skills_ontology.yml''" _ _ "YMap [(YStr ''prog'', YSeq [YInt 3])]"]
    load_ontology_succeeds_iff [of present "source_of (YSeq [YStr ''python''])"
      "''data/skills_ontology.yml''" _ _ "YSeq [YStr ''python'']"]
    load_ontology_succeeds_iff [of absent "source_of YNull" "''nowhere.yml''"]
  by (simp add: present_def absent_def source_of_def is_str_list_def)


section \<open>Properties of the normalizer\<close>

lemma sub_word_absent: "\<not> occurs_as_word w prev s \<Longrightarrow> sub_word w repl prev s = s"
  by (induction s arbitrary: prev) auto

lemma sub_word_same_aux: "repl = w \<Longrightarrow> sub_word w repl prev s = s"
proof (induction w repl prev s rule: sub_word.induct)
  case (1 w repl prev)
  then show ?case by simp
next
  case (2 w repl prev c cs)
  show ?case
  proof (cases "matches_word_here w prev (c # cs)")
    case True
    then have "take (length w) (c # cs) = w" by (simp add: matches_word_here_def)
    then have "w @ drop (length w) (c # cs) = c # cs"
      by (metis append_take_drop_id)
    with True 2 show ?thesis by simp
  next
    case False
    with 2 show ?thesis by simp
  qed
qed

lemma sub_word_same: "sub_word w w prev s = s"
  by (rule sub_word_same_aux) simp

lemma collapse_hd:
  "s = [] \<or> \<not> py_isspace (hd s) \<Longrightarrow>
     collapse_spaces s = [] \<or> \<not> py_isspace (hd (collapse_spaces s))"
  by (cases s) auto

lemma dropWhile_hd: "dropWhile P s = [] \<or> \<not> P (hd (dropWhile P s))"
  by (metis hd_dropWhile)

lemma spaced_cons:
  "spaced (c # s) \<longleftrightarrow> (py_isspace c \<longrightarrow> c = CHR '' '' \<and> (s = [] \<or> \<not> py_isspace (hd s))) \<and> spaced s"
  by (cases s) auto

lemma spaced_collapse: "spaced (collapse_spaces s)"
proof (induction s rule: collapse_spaces.induct)
  case 1
  then show ?case by simp
next
  case (2 c cs)
  show ?case
  proof (cases "py_isspace c")
    case True
    have "collapse_spaces (dropWhile py_isspace cs) = []
       \<or> \<not> py_isspace (hd (collapse_spaces (dropWhile py_isspace cs)))"
      by (rule collapse_hd) (rule dropWhile_hd)
    with True 2 show ?thesis by (simp add: spaced_cons)
  next
    case False
    with 2 show ?thesis by (simp add: spaced_cons)
  qed
qed

lemma collapse_spaced: "spaced s \<Longrightarrow> collapse_spaces s = s"
proof (induction s)
  case Nil
  then show ?case by simp
next
  case (Cons c s)
  then have sp: "spaced s" and h: "py_isspace c \<longrightarrow> c = CHR '' '' \<and> (s = [] \<or> \<not> py_isspace (hd s))"
    by (simp_all add: spaced_cons)
  show ?case
  proof (cases "py_isspace c")
    case True
    with h have "dropWhile py_isspace s = s" by (auto simp: dropWhile_eq_self_iff)
    with True h Cons.IH[OF sp] show ?thesis by simp
  next
    case False
    with Cons.IH[OF sp] show ?thesis by simp
  qed
qed

lemma spaced_append: "spaced (xs @ ys) \<Longrightarrow> spaced xs \<and> spaced ys"
proof (induction xs)
  case Nil
  then show ?case by simp
next
  case (Cons c xs)
  then show ?case by (cases xs) (auto simp: spaced_cons)
qed

lemma rev_dropWhile_rev: "z = rev (dropWhile P (rev z)) @ rev (takeWhile P (rev z))"
proof -
  have "rev z = takeWhile P (rev z) @ dropWhile P (rev z)" by simp
  then have "rev (rev z) = rev (takeWhile P (rev z) @ dropWhile P (rev z))" by (rule arg_cong)
  then show ?thesis by (simp only: rev_rev_ident rev_append)
qed

lemma strip_decomp: "\<exists>a b. s = a @ strip s @ b"
proof -
  let ?z = "dropWhile py_isspace s"
  have 1: "s = takeWhile py_isspace s @ ?z" by simp
  have 2: "?z = strip s @ rev (takeWhile py_isspace (rev ?z))"
    unfolding strip_def by (rule rev_dropWhile_rev)
  from 1 2 show ?thesis by metis
qed

lemma spaced_strip: "spaced s \<Longrightarrow> spaced (strip s)"
  using strip_decomp[of s] spaced_append by metis

lemma set_strip: "set (strip s) \<subseteq> set s"
  using strip_decomp[of s] by (metis Un_iff set_append subsetI)

lemma strip_idem: "strip (strip s) = strip s"
proof -
  let ?z = "dropWhile py_isspace s"
  let ?m = "rev (dropWhile py_isspace (rev ?z))"
  have m: "strip s = ?m" by (simp add: strip_def)
  have last: "dropWhile py_isspace (rev ?z) = [] \<or> \<not> py_isspace (hd (dropWhile py_isspace (rev ?z)))"
    by (rule dropWhile_hd)
  have first: "?m = [] \<or> \<not> py_isspace (hd ?m)"
  proof (cases "?m = []")
    case True then show ?thesis by simp
  next
    case False
    have d: "?z = ?m @ rev (takeWhile py_isspace (rev ?z))"
      by (rule rev_dropWhile_rev)
    from False have "hd (?m @ rev (takeWhile py_isspace (rev ?z))) = hd ?m" by (rule hd_append2)
    with d have hz: "hd ?z = hd ?m" by simp
    from d False have "?z \<noteq> []" by (metis append_is_Nil_conv)
    with dropWhile_hd[of py_isspace s] have "\<not> py_isspace (hd ?z)" by blast
    with hz show ?thesis by simp
  qed
  then have a: "dropWhile py_isspace ?m = ?m" by (simp only: dropWhile_eq_self_iff)
  from last have b: "dropWhile py_isspace (dropWhile py_isspace (rev ?z)) = dropWhile py_isspace (rev ?z)"
    by (simp only: dropWhile_eq_self_iff)
  have "strip ?m = rev (dropWhile py_isspace (rev (dropWhile py_isspace ?m)))" by (simp only: strip_def)
  also have "\<dots> = rev (dropWhile py_isspace (rev ?m))" by (simp only: a)
  also have "\<dots> = rev (dropWhile py_isspace (dropWhile py_isspace (rev ?z)))" by (simp only: rev_rev_ident)
  also have "\<dots> = ?m" by (simp only: b)
  finally show ?thesis by (simp only: m)
qed

lemma allowed_space: "py_isspace c \<Longrightarrow> allowed c \<Longrightarrow> c = CHR '' ''"
  unfolding py_isspace_def allowed_def Let_def code_point_def
  by (elim disjE conjE) simp_all

lemma allowed_blank [simp]: "allowed CHR '' ''"
  by (simp add: allowed_def)

lemma allowed_collapse: "\<forall>c \<in> set s. allowed c \<Longrightarrow> \<forall>c \<in> set (collapse_spaces s). allowed c"
proof (induction s rule: collapse_spaces.induct)
  case 1
  then show ?case by simp
next
  case (2 c cs)
  have sub: "set (dropWhile py_isspace cs) \<subseteq> set cs" by (auto dest: set_dropWhileD)
  from 2(3) have c: "allowed c" and cs: "\<forall>x \<in> set cs. allowed x" by simp_all
  show ?case
  proof (cases "py_isspace c")
    case True
    from cs sub have "\<forall>x \<in> set (dropWhile py_isspace cs). allowed x" by blast
    from 2(1)[OF True this] True show ?thesis by simp
  next
    case False
    from 2(2)[OF False cs] False c show ?thesis by simp
  qed
qed

lemma allowed_lower: "allowed c \<Longrightarrow> lower c = c"
  unfolding allowed_def Let_def lower_def is_upper_def code_point_def
  by (elim disjE conjE) simp_all

lemma normal_form_clean: "normal_form (strip (collapse_spaces (map (\<lambda>c. if allowed c then c else CHR '' '') s)))"
proof -
  let ?t = "map (\<lambda>c. if allowed c then c else CHR '' '') s"
  have "\<forall>c \<in> set ?t. allowed c" by (auto simp: allowed_def)
  then have "\<forall>c \<in> set (collapse_spaces ?t). allowed c" by (rule allowed_collapse)
  then have 1: "\<forall>c \<in> set (strip (collapse_spaces ?t)). allowed c"
    using set_strip by blast
  have 2: "spaced (strip (collapse_spaces ?t))" by (rule spaced_strip) (rule spaced_collapse)
  show ?thesis unfolding normal_form_def using 1 2 strip_idem by blast
qed

lemma normal_form_normalize: "normal_form (normalize_text t)"
proof (cases "t = []")
  case True
  then show ?thesis by (simp add: normalize_text_def normal_form_def strip_def)
next
  case False
  then show ?thesis by (simp add: normalize_text_def Let_def normal_form_clean)
qed

lemma normalize_underscore: "normalize_text ''_ml'' = ''ml''"
  by (simp add: normalize_text_def lower_def is_upper_def code_point_def matches_word_here_def is_word_def
        allowed_def strip_def py_isspace_def)

lemma normalize_ml: "normalize_text ''ml'' = ''machine learning''"
  by (simp add: normalize_text_def lower_def is_upper_def code_point_def matches_word_here_def is_word_def
        allowed_def strip_def py_isspace_def)


text \<open>
  Claim C5, as stated, says that normalizing twice is normalizing once, for every string.
  In \<open>_ml\<close> the underscore is a word character, so \<open>\bml\b\<close> does not match; the
  underscore is then replaced by a blank and stripped, which leaves the word \<open>ml\<close> for a
  second pass to expand.
\<close>

theorem normalize_not_idempotent:
  "normalize_text (normalize_text ''_ml'') = ''machine learning'' \<and> normalize_text ''_ml'' = ''ml''"
  by (simp add: normalize_underscore normalize_ml)


lemma normalize_idempotent_without_abbreviations:
  "\<forall>w \<in> set abbreviations. \<not> occurs_as_word w False (normalize_text t) \<Longrightarrow>
     normalize_text (normalize_text t) = normalize_text t"
proof -
  assume h: "\<forall>w \<in> set abbreviations. \<not> occurs_as_word w False (normalize_text t)"
  define u where "u = normalize_text t"
  have nf: "normal_form u" unfolding u_def by (rule normal_form_normalize)
  then have al: "\<forall>c \<in> set u. allowed c" and sp: "spaced u" and st: "strip u = u"
    by (simp_all add: normal_form_def)
  from al have lo: "map lower u = u" by (simp add: allowed_lower map_idI)
  from al have cl: "map (\<lambda>c. if allowed c then c else CHR '' '') u = u" by (simp add: map_idI)
  from h have no: "\<And>w repl. w \<in> set abbreviations \<Longrightarrow> sub_word w repl False u = u"
    unfolding u_def [symmetric] by (simp add: sub_word_absent)
  have "normalize_text u = u"
  proof (cases "u = []")
    case True
    then show ?thesis by (simp add: normalize_text_def)
  next
    case False
    then show ?thesis
      by (simp add: normalize_text_def Let_def lo no abbreviations_def sub_word_same cl
            collapse_spaced[OF sp] st)
  qed
  then show ?thesis by (simp add: u_def)
qed



lemma visible_append: "visible (a @ b) = visible a + visible b"
  by (simp add: visible_def)

lemma visible_cons: "visible (c # s) = (if py_isspace c then 0 else 1) + visible s"
  by (simp add: visible_def)

lemma visible_nil: "visible [] = 0"
  by (simp add: visible_def)

lemma visible_match:
  "matches_word_here w prev s \<Longrightarrow> visible s = visible w + visible (drop (length w) s)"
proof -
  assume "matches_word_here w prev s"
  then have "take (length w) s = w" by (simp add: matches_word_here_def)
  then have "s = w @ drop (length w) s" by (metis append_take_drop_id)
  then have "visible s = visible (w @ drop (length w) s)" by simp
  then show ?thesis by (simp only: visible_append)
qed

lemma visible_sub_word_ge:
  "visible w \<le> visible repl \<Longrightarrow> visible s \<le> visible (sub_word w repl prev s)"
proof (induction w repl prev s rule: sub_word.induct)
  case (1 w repl prev)
  then show ?case by simp
next
  case (2 w repl prev c cs)
  show ?case
  proof (cases "matches_word_here w prev (c # cs)")
    case True
    from "2.IH"(1)[OF True "2.prems"]
    have "visible (drop (length w) (c # cs))
        \<le> visible (sub_word w repl (is_word (last w)) (drop (length w) (c # cs)))" .
    with True "2.prems" visible_match[OF True] show ?thesis
      by (simp add: visible_append del: drop.simps)
  next
    case False
    from "2.IH"(2)[OF False "2.prems"] False show ?thesis
      by (simp add: visible_cons)
  qed
qed

lemma visible_sub_word_gt:
  "visible w < visible repl \<Longrightarrow> occurs_as_word w prev s \<Longrightarrow>
     visible s < visible (sub_word w repl prev s)"
proof (induction w repl prev s rule: sub_word.induct)
  case (1 w repl prev)
  then show ?case by simp
next
  case (2 w repl prev c cs)
  show ?case
  proof (cases "matches_word_here w prev (c # cs)")
    case True
    from "2.prems"(1) have "visible w \<le> visible repl" by simp
    then have "visible (drop (length w) (c # cs))
        \<le> visible (sub_word w repl (is_word (last w)) (drop (length w) (c # cs)))"
      by (rule visible_sub_word_ge)
    with True "2.prems"(1) visible_match[OF True] show ?thesis
      by (simp add: visible_append del: drop.simps)
  next
    case False
    with "2.prems"(2) have "occurs_as_word w (is_word c) cs" by simp
    from "2.IH"(2)[OF False "2.prems"(1) this] False show ?thesis
      by (simp add: visible_cons)
  qed
qed

lemma set_sub_word: "set (sub_word w repl prev s) \<subseteq> set s \<union> set repl"
proof (induction w repl prev s rule: sub_word.induct)
  case (1 w repl prev)
  then show ?case by simp
next
  case (2 w repl prev c cs)
  show ?case
  proof (cases "matches_word_here w prev (c # cs)")
    case True
    have "set (drop (length w) (c # cs)) \<subseteq> set (c # cs)" by (rule set_drop_subset)
    with "2.IH"(1)[OF True] True show ?thesis by (auto simp del: drop.simps)
  next
    case False
    with "2.IH"(2)[OF False] show ?thesis by auto
  qed
qed

lemma visible_collapse: "visible (collapse_spaces s) = visible s"
proof (induction s rule: collapse_spaces.induct)
  case 1
  then show ?case by simp
next
  case (2 c cs)
  have d: "visible (dropWhile py_isspace cs) = visible cs"
    unfolding visible_def by (induction cs) auto
  show ?case
  proof (cases "py_isspace c")
    case True
    with 2 d show ?thesis by (simp add: visible_cons py_isspace_def)
  next
    case False
    with 2 show ?thesis by (simp add: visible_cons)
  qed
qed

lemma visible_strip: "visible (strip s) = visible s"
proof -
  have d: "\<And>x. visible (dropWhile py_isspace x) = visible x"
  proof -
    fix x show "visible (dropWhile py_isspace x) = visible x"
      unfolding visible_def by (induction x) auto
  qed
  have r: "\<And>x. visible (rev x) = visible x"
    by (simp add: visible_def rev_filter [symmetric])
  show ?thesis by (simp add: strip_def r d)
qed


lemma sub_word_step:
  assumes "visible w < visible repl"
  shows "visible s \<le> visible (sub_word w repl False s)"
    and "visible (sub_word w repl False s) \<le> visible s \<Longrightarrow> \<not> occurs_as_word w False s"
    and "visible (sub_word w repl False s) \<le> visible s \<Longrightarrow> sub_word w repl False s = s"
proof -
  from assms have "visible w \<le> visible repl" by simp
  then show 1: "visible s \<le> visible (sub_word w repl False s)" by (rule visible_sub_word_ge)
  show 2: "\<not> occurs_as_word w False s" if "visible (sub_word w repl False s) \<le> visible s"
    using that visible_sub_word_gt[OF assms, of False s] by auto
  show "sub_word w repl False s = s" if "visible (sub_word w repl False s) \<le> visible s"
    using 2[OF that] by (rule sub_word_absent)
qed

lemma visible_abbreviations:
  "visible ''ml'' < visible ''machine learning''"
  "visible ''ai'' < visible ''artificial intelligence''"
  "visible ''ui'' < visible ''user interface''"
  "visible ''ux'' < visible ''user experience''"
  "visible ''api'' < visible ''rest apis''"
  by (simp_all add: visible_def py_isspace_def)

lemma allowed_replacements:
  "\<forall>c \<in> set ''machine learning''. allowed c"
  "\<forall>c \<in> set ''artificial intelligence''. allowed c"
  "\<forall>c \<in> set ''user interface''. allowed c"
  "\<forall>c \<in> set ''user experience''. allowed c"
  "\<forall>c \<in> set ''rest apis''. allowed c"
  by (simp_all add: allowed_def code_point_def)

lemma allowed_sub_word:
  "\<forall>c \<in> set s. allowed c \<Longrightarrow> \<forall>c \<in> set repl. allowed c \<Longrightarrow>
     \<forall>c \<in> set (sub_word w repl prev s). allowed c"
  using set_sub_word[of w repl prev s] by blast

lemma normalize_changes:
  assumes nf: "normal_form u"
    and occ: "\<exists>w \<in> set abbreviations. occurs_as_word w False u"
  shows "normalize_text u \<noteq> u"
proof
  assume same: "normalize_text u = u"
  from occ have ne: "u \<noteq> []" by auto
  from nf have al: "\<forall>c \<in> set u. allowed c" by (simp add: normal_form_def)
  then have lo: "map lower u = u" by (simp add: allowed_lower map_idI)
  define s1 where "s1 = sub_word ''ml'' ''machine learning'' False u"
  define s2 where "s2 = sub_word ''ai'' ''artificial intelligence'' False s1"
  define s3 where "s3 = sub_word ''ui'' ''user interface'' False s2"
  define s4 where "s4 = sub_word ''ux'' ''user experience'' False s3"
  define s5 where "s5 = sub_word ''api'' ''rest apis'' False s4"
  have a1: "\<forall>c \<in> set s1. allowed c"
    unfolding s1_def using al allowed_replacements(1) by (rule allowed_sub_word)
  have a2: "\<forall>c \<in> set s2. allowed c"
    unfolding s2_def using a1 allowed_replacements(2) by (rule allowed_sub_word)
  have a3: "\<forall>c \<in> set s3. allowed c"
    unfolding s3_def using a2 allowed_replacements(3) by (rule allowed_sub_word)
  have a4: "\<forall>c \<in> set s4. allowed c"
    unfolding s4_def using a3 allowed_replacements(4) by (rule allowed_sub_word)
  have a5: "\<forall>c \<in> set s5. allowed c"
    unfolding s5_def using a4 allowed_replacements(5) by (rule allowed_sub_word)
  then have cl: "map (\<lambda>c. if allowed c then c else CHR '' '') s5 = s5" by (simp add: map_idI)
  from ne have "normalize_text u
      = strip (collapse_spaces (map (\<lambda>c. if allowed c then c else CHR '' '') s5))"
    unfolding s1_def s2_def s3_def s4_def s5_def
    by (simp add: normalize_text_def Let_def lo sub_word_same)
  then have "normalize_text u = strip (collapse_spaces s5)" by (simp only: cl)
  with same have "visible u = visible (strip (collapse_spaces s5))" by simp
  then have v: "visible s5 = visible u" by (simp add: visible_strip visible_collapse)
  have g1: "visible u \<le> visible s1" unfolding s1_def by (rule sub_word_step(1)[OF visible_abbreviations(1)])
  have g2: "visible s1 \<le> visible s2" unfolding s2_def by (rule sub_word_step(1)[OF visible_abbreviations(2)])
  have g3: "visible s2 \<le> visible s3" unfolding s3_def by (rule sub_word_step(1)[OF visible_abbreviations(3)])
  have g4: "visible s3 \<le> visible s4" unfolding s4_def by (rule sub_word_step(1)[OF visible_abbreviations(4)])
  have g5: "visible s4 \<le> visible s5" unfolding s5_def by (rule sub_word_step(1)[OF visible_abbreviations(5)])
  from v g1 g2 g3 g4 g5 have e1: "visible s1 \<le> visible u" by linarith
  then have n1: "\<not> occurs_as_word ''ml'' False u" and i1: "s1 = u"
    unfolding s1_def
    using sub_word_step(2)[OF visible_abbreviations(1)] sub_word_step(3)[OF visible_abbreviations(1)]
    by blast+
  from v g1 g3 g4 g5 have e2: "visible s2 \<le> visible s1" by linarith
  then have n2: "\<not> occurs_as_word ''ai'' False s1" and i2: "s2 = s1"
    unfolding s2_def
    using sub_word_step(2)[OF visible_abbreviations(2)] sub_word_step(3)[OF visible_abbreviations(2)]
    by blast+
  from v g1 g2 g4 g5 have e3: "visible s3 \<le> visible s2" by linarith
  then have n3: "\<not> occurs_as_word ''ui'' False s2" and i3: "s3 = s2"
    unfolding s3_def
    using sub_word_step(2)[OF visible_abbreviations(3)] sub_word_step(3)[OF visible_abbreviations(3)]
    by blast+
  from v g1 g2 g3 g5 have e4: "visible s4 \<le> visible s3" by linarith
  then have n4: "\<not> occurs_as_word ''ux'' False s3" and i4: "s4 = s3"
    unfolding s4_def
    using sub_word_step(2)[OF visible_abbreviations(4)] sub_word_step(3)[OF visible_abbreviations(4)]
    by blast+
  from v g1 g2 g3 g4 have e5: "visible s5 \<le> visible s4" by linarith
  then have n5: "\<not> occurs_as_word ''api'' False s4"
    unfolding s5_def
    using sub_word_step(2)[OF visible_abbreviations(5)]
    by blast
  from n1 n2 n3 n4 n5 i1 i2 i3 i4 have "\<forall>w \<in> set abbreviations. \<not> occurs_as_word w False u"
    by (simp add: abbreviations_def)
  with occ show False by blast
qed

text \<open>
  Claim C5, amended. Normalizing twice is normalizing once exactly for the strings whose
  normalized form contains none of the abbreviations \<open>ml\<close>, \<open>ai\<close>, \<open>ui\<close>, \<open>ux\<close>,
  \<open>api\<close> as a whole word.
\<close>

theorem normalize_idempotent_iff:
  "normalize_text (normalize_text t) = normalize_text t
     \<longleftrightarrow> (\<forall>w \<in> set abbreviations. \<not> occurs_as_word w False (normalize_text t))"
proof
  assume "normalize_text (normalize_text t) = normalize_text t"
  then show "\<forall>w \<in> set abbreviations. \<not> occurs_as_word w False (normalize_text t)"
    using normalize_changes[OF normal_form_normalize, of t] by blast
next
  assume "\<forall>w \<in> set abbreviations. \<not> occurs_as_word w False (normalize_text t)"
  then show "normalize_text (normalize_text t) = normalize_text t"
    by (rule normalize_idempotent_without_abbreviations)
qed


lemma normalize_sample: "normalize_text ''Python,  SQL!'' = ''python sql''"
  by (simp add: normalize_text_def lower_def is_upper_def code_point_def matches_word_here_def is_word_def
        allowed_def strip_def py_isspace_def)

theorem normalize_idempotent_iff_witness:
  "normalize_text (normalize_text ''Python,  SQL!'') = normalize_text ''Python,  SQL!''"
proof -
  have "\<forall>w \<in> set abbreviations. \<not> occurs_as_word w False (normalize_text ''Python,  SQL!'')"
    by (simp add: normalize_sample abbreviations_def matches_word_here_def is_word_def code_point_def)
  with normalize_idempotent_iff [of "''Python,  SQL!''"] show ?thesis by blast
qed


section \<open>Properties of the experience heuristic\<close>

lemma m_items_cons_set:
  "r \<in> set (m_items (it # its) s cap) \<longleftrightarrow>
     (\<exists>s' cap'. (s', cap') \<in> set (m_item it s cap) \<and> r \<in> set (m_items its s' cap'))"
  by auto

lemma m_items_append_set:
  "r \<in> set (m_items (xs @ ys) s cap) \<longleftrightarrow>
     (\<exists>s' cap'. (s', cap') \<in> set (m_items xs s cap) \<and> r \<in> set (m_items ys s' cap'))"
proof (induction xs arbitrary: s cap)
  case Nil
  then show ?case by simp
next
  case (Cons it xs)
  have "r \<in> set (m_items ((it # xs) @ ys) s cap) \<longleftrightarrow>
      (\<exists>s1 c1. (s1, c1) \<in> set (m_item it s cap) \<and> r \<in> set (m_items (xs @ ys) s1 c1))"
    by (simp only: append_Cons m_items_cons_set)
  also have "\<dots> \<longleftrightarrow> (\<exists>s1 c1. (s1, c1) \<in> set (m_item it s cap) \<and>
      (\<exists>s' cap'. (s', cap') \<in> set (m_items xs s1 c1) \<and> r \<in> set (m_items ys s' cap')))"
    by (simp only: Cons.IH)
  also have "\<dots> \<longleftrightarrow> (\<exists>s' cap'. (s', cap') \<in> set (m_items (it # xs) s cap) \<and> r \<in> set (m_items ys s' cap'))"
    by (simp only: m_items_cons_set [of _ it xs]) blast
  finally show ?case .
qed

lemma groupless_keeps_capture:
  shows "list_all groupless its \<Longrightarrow> r \<in> set (m_items its s cap) \<Longrightarrow> snd r = cap"
    and "groupless it \<Longrightarrow> r \<in> set (m_item it s cap) \<Longrightarrow> snd r = cap"
proof (induction its s cap and it s cap arbitrary: r and r rule: m_items_m_item.induct)
  case (1 s cap)
  then show ?case by simp
next
  case (2 it its s cap)
  from 2(4) obtain s' cap' where a: "(s', cap') \<in> set (m_item it s cap)"
    and b: "r \<in> set (m_items its s' cap')"
    by (auto simp only: m_items_cons_set)
  from 2(3) have g1: "groupless it" and g2: "list_all groupless its" by simp_all
  from 2(1)[OF g1 a] have "cap' = cap" by simp
  moreover from 2(2)[OF a refl g2 b] have "snd r = cap'" .
  ultimately show ?case by simp
next
  case (3 a q s cap)
  then show ?case by auto
next
  case (4 its s cap)
  then show ?case by simp
next
  case (5 alts s cap)
  from 5(3) obtain its where i: "its \<in> set alts" and m: "r \<in> set (m_items its s cap)" by auto
  from 5(2) i have "list_all groupless its" by (simp add: list_all_iff)
  from 5(1)[OF i this m] show ?case .
qed

lemma spans_greedy_prefix:
  "s' \<in> set (spans_greedy P s) \<Longrightarrow> \<exists>pre. s = pre @ s' \<and> list_all P pre"
proof (induction s)
  case Nil
  then show ?case by simp
next
  case (Cons c cs)
  show ?case
  proof (cases "s' = c # cs")
    case True
    then show ?thesis by simp
  next
    case False
    with Cons.prems have pc: "P c" and "s' \<in> set (spans_greedy P cs)" by (auto split: if_splits)
    with Cons.IH obtain pre where "cs = pre @ s'" "list_all P pre" by blast
    with pc have "c # cs = (c # pre) @ s' \<and> list_all P (c # pre)" by simp
    then show ?thesis by blast
  qed
qed

lemma digits_group:
  "r \<in> set (m_item (Group [Q Digit Plus]) s cap) \<Longrightarrow> digit_capture (snd r)"
proof -
  assume "r \<in> set (m_item (Group [Q Digit Plus]) s cap)"
  then obtain s' where s': "s' \<in> set (m_atom Digit Plus s)"
    and r: "r = (s', Some (take (length s - length s') s))" by auto
  from s' obtain c cs where s: "s = c # cs" and c: "is_decimal c"
    and sp: "s' \<in> set (spans_greedy (atom_matches Digit) cs)"
    by (cases s) (auto split: if_splits)
  from spans_greedy_prefix[OF sp] obtain pre where p: "cs = pre @ s'"
    and d: "list_all (atom_matches Digit) pre"
    by blast
  from d have d': "list_all is_decimal pre" by (simp add: list_all_iff)
  from s p have "take (length s - length s') s = c # pre" by simp
  with r c d' show ?thesis by (simp add: digit_capture_def digits_only_def)
qed

lemma captures_digits_shape:
  "list_all groupless post \<Longrightarrow> captures_digits (pre @ [Group [Q Digit Plus]] @ post)"
proof -
  assume g: "list_all groupless post"
  show ?thesis
    unfolding captures_digits_def
  proof (intro allI ballI)
    fix s cap r assume "r \<in> set (m_items (pre @ [Group [Q Digit Plus]] @ post) s cap)"
    then obtain s1 c1 where "r \<in> set (m_items ([Group [Q Digit Plus]] @ post) s1 c1)"
      by (auto simp only: m_items_append_set)
    then obtain s2 c2 where a: "(s2, c2) \<in> set (m_item (Group [Q Digit Plus]) s1 c1)"
      and b: "r \<in> set (m_items post s2 c2)"
      by (auto simp only: append_Cons append_Nil m_items_cons_set)
    from digits_group[OF a] have "digit_capture c2" by simp
    moreover from groupless_keeps_capture(1)[OF g b] have "snd r = c2" .
    ultimately show "digit_capture (snd r)" by simp
  qed
qed

lemma match_at_digits:
  "captures_digits p \<Longrightarrow> match_at p s = Some (rest, cap) \<Longrightarrow> digits_only (group_text cap)"
proof -
  assume c: "captures_digits p" and m: "match_at p s = Some (rest, cap)"
  from m have "(rest, cap) \<in> set (m_items p s None)"
    by (auto simp: match_at_def split: list.splits)
  with c have "digit_capture cap" by (fastforce simp: captures_digits_def)
  then show ?thesis by (auto simp: digit_capture_def group_text_def split: option.splits)
qed

lemma findall_digits:
  "captures_digits p \<Longrightarrow> m \<in> set (findall p t) \<Longrightarrow> digits_only m"
proof (induction p t rule: findall.induct)
  case (1 p)
  then show ?case
    by (auto split: option.splits dest: match_at_digits [OF _ sym])
next
  case (2 p c cs)
  show ?case
  proof (cases "match_at p (c # cs)")
    case None
    with 2 show ?thesis by simp
  next
    case (Some r)
    obtain rest cap where r: "r = (rest, cap)" by (cases r)
    from Some r have sm: "match_at p (c # cs) = Some (rest, cap)" by simp
    from "2.prems" have cd: "captures_digits p" by simp
    from match_at_digits[OF cd sm] have g: "digits_only (group_text cap)" .
    show ?thesis
    proof (cases "length rest \<le> length cs")
      case True
      with "2.prems" Some r g "2.IH"(2) show ?thesis by auto
    next
      case False
      with "2.prems" Some r g "2.IH"(3) show ?thesis by auto
    qed
  qed
qed


lemma float_le_refl: "float_le a a"
  by (cases a) simp_all

lemma float_le_trans: "float_le a b \<Longrightarrow> float_le b c \<Longrightarrow> float_le a c"
  by (cases a; cases b; cases c) simp_all

lemma float_le_total: "float_le a b \<or> float_le b a"
  by (cases a; cases b) auto

lemma foldl_py_max:
  "foldl (\<lambda>m x. if float_lt m x then x else m) y ys \<in> set (y # ys)
   \<and> (\<forall>x \<in> set (y # ys). float_le x (foldl (\<lambda>m x. if float_lt m x then x else m) y ys))"
proof (induction ys arbitrary: y)
  case Nil
  then show ?case by (simp add: float_le_refl)
next
  case (Cons z zs)
  let ?f = "\<lambda>m x. if float_lt m x then x else m"
  let ?y = "?f y z"
  let ?r = "foldl ?f ?y zs"
  from Cons.IH[of ?y] have mem: "?r \<in> set (?y # zs)" and ub: "\<forall>x \<in> set (?y # zs). float_le x ?r"
    by blast+
  have yy: "float_le y ?y" and zy: "float_le z ?y"
    using float_le_total[of y z] by (auto simp: float_lt_def float_le_refl)
  from ub have "float_le ?y ?r" by simp
  with yy zy have "float_le y ?r" and "float_le z ?r" by (blast intro: float_le_trans)+
  moreover have "?y = y \<or> ?y = z" by simp
  ultimately show ?case using mem ub by auto
qed

lemma mantissa_below_range: "(2::nat) ^ 53 \<le> 2 ^ 1024"
  by (rule power_increasing) simp_all

lemma double_shift_small: "n < 2 ^ 53 \<Longrightarrow> double_shift n = 0"
  by (subst double_shift.simps) simp

lemma nearest_double_small: "n < 2 ^ 53 \<Longrightarrow> nearest_double n = Some n"
proof -
  assume s: "n < 2 ^ 53"
  from s mantissa_below_range have "n < (2::nat) ^ 1024" by (rule less_le_trans)
  then have "\<not> (2::nat) ^ 1024 \<le> n" by (simp only: not_le)
  with double_shift_small[OF s] show ?thesis
    by (simp add: nearest_double_def del: double_shift.simps)
qed

lemma round_double_small: "n < 2 ^ 53 \<Longrightarrow> round_double n = Finite (real n)"
  by (simp only: round_double_def nearest_double_small option.case)


lemma double_shift_large: "2 ^ 53 \<le> n \<Longrightarrow> double_shift n = Suc (double_shift (n div 2))"
  by (subst double_shift.simps) (simp only: not_less [symmetric] if_False)

lemma half_of_large: "(2::nat) ^ 53 \<le> n \<Longrightarrow> 2 ^ 52 \<le> n div 2"
proof -
  assume "(2::nat) ^ 53 \<le> n"
  then have "(2::nat) ^ 53 div 2 \<le> n div 2" by (rule div_le_mono)
  moreover have "(2::nat) ^ 53 div 2 = 2 ^ 52" by simp
  ultimately show ?thesis by (simp only:)
qed

lemma double_shift_quotient: "2 ^ 53 \<le> n \<Longrightarrow> 2 ^ 52 \<le> n div 2 ^ double_shift n"
proof (induction n rule: double_shift.induct)
  case (1 n)
  from "1.prems" have ds: "double_shift n = Suc (double_shift (n div 2))" by (rule double_shift_large)
  have split: "n div 2 ^ Suc (double_shift (n div 2)) = n div 2 div 2 ^ double_shift (n div 2)"
    by (simp only: power_Suc div_mult2_eq)
  show ?case
  proof (cases "n div 2 < 2 ^ 53")
    case True
    then have "double_shift (n div 2) = 0" by (rule double_shift_small)
    with ds split half_of_large[OF "1.prems"] show ?thesis by (simp only: power_0 div_by_1)
  next
    case False
    then have big: "2 ^ 53 \<le> n div 2" by (simp only: not_less)
    from "1.prems" have "\<not> n < 2 ^ 53" by (simp only: not_less)
    from "1.IH"[OF this big] ds split show ?thesis by (simp only:)
  qed
qed


lemma nearest_double_large: "2 ^ 53 \<le> n \<Longrightarrow> nearest_double n = Some v \<Longrightarrow> 2 ^ 52 \<le> v"
proof -
  assume big: "2 ^ 53 \<le> n" and v: "nearest_double n = Some v"
  define e where "e = double_shift n"
  define q where "q = n div 2 ^ e"
  from v have "v = q * 2 ^ e \<or> v = Suc q * 2 ^ e"
    unfolding nearest_double_def Let_def e_def [symmetric] q_def [symmetric]
    by (auto split: if_splits simp del: double_shift.simps)
  then obtain q' where q': "q \<le> q'" and vq: "v = q' * 2 ^ e"
    by (metis le_refl le_SucI)
  from double_shift_quotient[OF big] have "2 ^ 52 \<le> q" by (simp only: q_def e_def)
  from this q' have "2 ^ 52 \<le> q'" by (rule le_trans)
  moreover have "q' \<le> q' * 2 ^ e" by simp
  ultimately show ?thesis unfolding vq by (rule le_trans)
qed

lemma date_count_capped: "py_min (round_double n) (Finite 15) = Finite (min (real n) 15)"
proof (cases "n < 2 ^ 53")
  case True
  then show ?thesis by (simp add: round_double_small py_min_def float_lt_def min_def)
next
  case False
  then have big: "2 ^ 53 \<le> n" by (simp only: not_less)
  have "(15::nat) < 2 ^ 52" by simp
  have n15: "15 < n" using big by simp
  show ?thesis
  proof (cases "nearest_double n")
    case None
    with n15 show ?thesis by (simp add: round_double_def py_min_def float_lt_def min_def)
  next
    case (Some v)
    from nearest_double_large[OF big Some] have "15 < v" by simp
    with Some n15 show ?thesis by (simp add: round_double_def py_min_def float_lt_def min_def)
  qed
qed

lemma decimal_is_digit: "digits_only m \<Longrightarrow> str_isdigit m"
  by (auto simp: digits_only_def str_isdigit_def py_isdigit_def list_all_iff)

lemma float_all_digits:
  "\<forall>m \<in> set ms. digits_only m \<Longrightarrow>
     float_all ms = Inr (map (\<lambda>m. round_double (decimal_value m)) ms)"
  by (induction ms) (auto simp: py_float_def digits_only_def)

lemma highest_number_digits:
  assumes ne: "ms \<noteq> []" and d: "\<forall>m \<in> set ms. digits_only m"
  shows "\<exists>r. highest_number ms = Inr r
           \<and> r \<in> set (map (\<lambda>m. round_double (decimal_value m)) ms)
           \<and> (\<forall>m \<in> set ms. float_le (round_double (decimal_value m)) r)"
proof -
  let ?ds = "map (\<lambda>m. round_double (decimal_value m)) ms"
  from d have f: "filter str_isdigit ms = ms" by (simp add: decimal_is_digit)
  from ne obtain y ys where ds: "?ds = y # ys" by (cases ms) auto
  let ?r = "foldl (\<lambda>m x. if float_lt m x then x else m) y ys"
  have h: "highest_number ms = Inr ?r"
    unfolding highest_number_def f float_all_digits[OF d] by (simp add: ds py_max_def)
  from foldl_py_max[of y ys] have "?r \<in> set (y # ys)" and "\<forall>x \<in> set (y # ys). float_le x ?r"
    by blast+
  then have "?r \<in> set ?ds" and "\<forall>x \<in> set ?ds. float_le x ?r"
    by (simp_all only: ds)
  with h show ?thesis by auto
qed

lemma try_patterns_first:
  "i < length ps \<Longrightarrow> \<forall>j < i. findall (ps ! j) t = [] \<Longrightarrow> findall (ps ! i) t \<noteq> [] \<Longrightarrow>
     try_patterns ps t = Some (highest_number (findall (ps ! i) t))"
proof (induction ps arbitrary: i)
  case Nil
  then show ?case by simp
next
  case (Cons p ps)
  show ?case
  proof (cases i)
    case 0
    with Cons.prems show ?thesis by (simp add: Let_def)
  next
    case (Suc k)
    with Cons.prems have p: "findall p t = []" by auto
    from Suc Cons.prems have "k < length ps" "\<forall>j < k. findall (ps ! j) t = []" "findall (ps ! k) t \<noteq> []"
      by auto
    from Cons.IH[OF this] p Suc show ?thesis by (simp add: Let_def)
  qed
qed

lemma try_patterns_none:
  "\<forall>p \<in> set ps. findall p t = [] \<Longrightarrow> try_patterns ps t = None"
  by (induction ps) (auto simp: Let_def)

lemma experience_patterns_capture:
  "p \<in> set experience_patterns \<Longrightarrow> captures_digits p"
proof -
  have g: "\<And>w. list_all groupless (lit w)" by (simp add: lit_def list_all_iff)
  have sh: "\<And>pre post. list_all groupless post \<Longrightarrow> captures_digits (pre @ Group [Q Digit Plus] # post)"
    using captures_digits_shape by simp
  have n: "\<And>post. list_all groupless post \<Longrightarrow> captures_digits (number_of_years @ post)"
    unfolding number_of_years_def using sh[of _ "[]"] by (simp add: g)
  have l: "\<And>post. list_all groupless post \<Longrightarrow> captures_digits (Group [Q Digit Plus] # post)"
    using sh[of _ "[]"] by simp
  have m: "captures_digits (lit ''experience'' @ [Q Dot LazyStar] @ number_of_years)"
    unfolding number_of_years_def
    using sh[of "Q Space Star # Q (Lit CHR ''+'') Optional # Q Space Star # lit ''year'' @ [Q (Lit CHR ''s'') Optional]"
        "lit ''experience'' @ [Q Dot LazyStar]"]
    by (simp add: g)
  assume "p \<in> set experience_patterns"
  then show ?thesis
    unfolding experience_patterns_def
    using n[of "[Q (OneOf [Space, Word]) Star] @ lit ''experience''"]
      n[of "[Q Dot LazyStar] @ lit ''experience''"] m
      l[of "Q Space Star # lit ''yr''"] l[of "Q Space Star # lit ''yr'' @ [Q (Lit CHR ''.'') Once]"]
    by (auto simp: g)
qed


lemma extract_first_match:
  assumes i: "i < length experience_patterns"
    and before: "\<forall>j < i. findall (experience_patterns ! j) t = []"
    and ne: "findall (experience_patterns ! i) t \<noteq> []"
  shows "extract_experience t
           \<in> set (map (\<lambda>m. round_double (decimal_value m)) (findall (experience_patterns ! i) t))"
    and "\<forall>m \<in> set (findall (experience_patterns ! i) t).
           float_le (round_double (decimal_value m)) (extract_experience t)"
proof -
  let ?ms = "findall (experience_patterns ! i) t"
  from i before ne have first: "try_patterns experience_patterns t = Some (highest_number ?ms)"
    by (simp add: try_patterns_first)
  from i have "experience_patterns ! i \<in> set experience_patterns" by simp
  then have "captures_digits (experience_patterns ! i)" by (rule experience_patterns_capture)
  then have "\<forall>m \<in> set ?ms. digits_only m" by (blast intro: findall_digits)
  from highest_number_digits[OF ne this] obtain r where r: "highest_number ?ms = Inr r"
    and mem: "r \<in> set (map (\<lambda>m. round_double (decimal_value m)) ?ms)"
    and ub: "\<forall>m \<in> set ?ms. float_le (round_double (decimal_value m)) r"
    by blast
  from first r have e: "extract_experience t = r" by (simp add: extract_experience_def)
  from mem e show "extract_experience t \<in> set (map (\<lambda>m. round_double (decimal_value m)) ?ms)"
    by simp
  from ub e show "\<forall>m \<in> set ?ms. float_le (round_double (decimal_value m)) (extract_experience t)"
    by simp
qed

lemma extract_first_exact:
  assumes i: "i < length experience_patterns"
    and before: "\<forall>j < i. findall (experience_patterns ! j) t = []"
    and ne: "findall (experience_patterns ! i) t \<noteq> []"
    and small: "\<forall>m \<in> set (findall (experience_patterns ! i) t). decimal_value m < 2 ^ 53"
  shows "extract_experience t
           = Finite (real (Max (set (map decimal_value (findall (experience_patterns ! i) t)))))"
proof -
  let ?ms = "findall (experience_patterns ! i) t"
  from extract_first_match(1)[OF i before ne] obtain m0 where m0: "m0 \<in> set ?ms"
    and e: "extract_experience t = round_double (decimal_value m0)"
    by auto
  from small m0 have e': "extract_experience t = Finite (real (decimal_value m0))"
    by (simp add: e round_double_small)
  have "\<forall>m \<in> set ?ms. decimal_value m \<le> decimal_value m0"
  proof
    fix m assume m: "m \<in> set ?ms"
    with extract_first_match(2)[OF i before ne]
    have "float_le (round_double (decimal_value m)) (extract_experience t)" by blast
    with small m show "decimal_value m \<le> decimal_value m0"
      by (simp add: e' round_double_small)
  qed
  with m0 have "Max (set (map decimal_value ?ms)) = decimal_value m0"
    by (intro Max_eqI) auto
  with e' show ?thesis by simp
qed

lemma scenario_matches:
  "findall (experience_patterns ! 0) ''5 years of experience as well as 2 years as intern'' = [''5'']"
  by code_simp

lemma decimal_value_5: "decimal_value ''5'' = 5"
  by (simp add: decimal_value_def digit_value_def code_point_def)

lemma scenario_value:
  "extract_experience ''5 years of experience as well as 2 years as intern'' = Finite 5"
proof -
  have l: "0 < length experience_patterns" by (simp add: experience_patterns_def)
  have "(5::nat) < 2 ^ 53" by simp
  with extract_first_exact[OF l, of "''5 years of experience as well as 2 years as intern''"]
  show ?thesis
    by (simp add: scenario_matches decimal_value_5 del: findall.simps)
qed

lemma round_double_overflow: "2 ^ 1024 \<le> n \<Longrightarrow> round_double n = PosInf"
proof -
  assume big: "2 ^ 1024 \<le> n"
  define e where "e = double_shift n"
  define q where "q = n div 2 ^ e"
  from mantissa_below_range big have b53: "2 ^ 53 \<le> n" by (rule le_trans)
  have lower: "(2::nat) ^ 1024 \<le> q * 2 ^ e"
  proof (cases "e \<le> 1024")
    case True
    then have split: "(2::nat) ^ 1024 = 2 ^ (1024 - e) * 2 ^ e"
      by (simp only: power_add [symmetric] le_add_diff_inverse2)
    with big have "2 ^ (1024 - e) * 2 ^ e \<le> n" by (simp only:)
    then have "2 ^ (1024 - e) * 2 ^ e div 2 ^ e \<le> n div 2 ^ e" by (rule div_le_mono)
    then have "2 ^ (1024 - e) \<le> q" by (simp add: q_def)
    then have "2 ^ (1024 - e) * 2 ^ e \<le> q * 2 ^ e" by (rule mult_le_mono1)
    with split show ?thesis by (simp only:)
  next
    case False
    then have p: "(2::nat) ^ 1024 \<le> 2 ^ e" by (intro power_increasing) simp_all
    have "(1::nat) \<le> 2 ^ 52" by simp
    from this double_shift_quotient[OF b53] have "1 \<le> q"
      unfolding q_def e_def by (rule le_trans)
    then have "1 * 2 ^ e \<le> q * 2 ^ e" by (rule mult_le_mono1)
    then have "(2::nat) ^ e \<le> q * 2 ^ e" by (simp only: mult_1)
    with p show ?thesis by (rule le_trans)
  qed
  have "nearest_double n = None"
    unfolding nearest_double_def Let_def e_def [symmetric] q_def [symmetric]
    using lower by (auto simp del: double_shift.simps)
  then show ?thesis by (simp add: round_double_def)
qed

lemma large_matches:
  "findall (experience_patterns ! 0) ''9007199254740993 years experience'' = [''9007199254740993'']"
  by code_simp

lemma large_value: "decimal_value ''9007199254740993'' = 9007199254740993"
  by (simp add: decimal_value_def digit_value_def code_point_def)

lemma large_rounded: "round_double 9007199254740993 = Finite 9007199254740992"
proof -
  have "(2::nat) ^ 53 \<le> 9007199254740993" by simp
  then have "double_shift 9007199254740993 = Suc (double_shift (9007199254740993 div 2))"
    by (rule double_shift_large)
  moreover have "(9007199254740993::nat) div 2 = 4503599627370496" by simp
  moreover have "double_shift 4503599627370496 = 0" by (rule double_shift_small) simp
  ultimately have e: "double_shift 9007199254740993 = Suc 0" by (simp only:)
  have "nearest_double 9007199254740993 = Some 9007199254740992"
    unfolding nearest_double_def e by (simp add: Let_def del: double_shift.simps)
  then show ?thesis by (simp add: round_double_def)
qed

text \<open>
  Claim C7, as stated, has the heuristic return the maximum numeric value matched. The
  matches are converted with \<open>float\<close>, which rounds to a double: for the single match
  \<open>9007199254740993\<close> (that is \<open>2 ^ 53 + 1\<close>) the result is \<open>9007199254740992.0\<close>.
\<close>

theorem extract_experience_rounds:
  "extract_experience ''9007199254740993 years experience'' = Finite 9007199254740992
   \<and> findall (experience_patterns ! 0) ''9007199254740993 years experience'' = [''9007199254740993'']
   \<and> decimal_value ''9007199254740993'' = 9007199254740993"
proof -
  have l: "0 < length experience_patterns" by (simp add: experience_patterns_def)
  from extract_first_match(1)[OF l, of "''9007199254740993 years experience''"]
  have "extract_experience ''9007199254740993 years experience'' = Finite 9007199254740992"
    by (simp add: large_matches large_value large_rounded del: findall.simps)
  then show ?thesis by (simp add: large_matches large_value del: findall.simps)
qed

text \<open>
  Claim C7, amended. The explicit patterns are tried in their order; for the first one
  with a match, the result is the largest of the matched numbers as \<open>float\<close> converts them
  (the nearest double, \<open>inf\<close> beyond the range of doubles). So it is the maximum numeric
  value matched whenever every matched number is below \<open>2 ^ 53\<close>, and \<open>inf\<close> when a matched
  number is \<open>2 ^ 1024\<close> or more. When no explicit pattern matches, the result is the
  number of date ranges, at most 15, which is 0 when there is none. On
  \<open>5 years of experience as well as 2 years as intern\<close> the result is 5.
\<close>

theorem extract_experience_spec:
  "(i < length experience_patterns
      \<and> (\<forall>j < i. findall (experience_patterns ! j) t = [])
      \<and> findall (experience_patterns ! i) t \<noteq> []
    \<longrightarrow> extract_experience t
          \<in> set (map (\<lambda>m. round_double (decimal_value m)) (findall (experience_patterns ! i) t))
        \<and> (\<forall>m \<in> set (findall (experience_patterns ! i) t).
              float_le (round_double (decimal_value m)) (extract_experience t)))
   \<and> (i < length experience_patterns
      \<and> (\<forall>j < i. findall (experience_patterns ! j) t = [])
      \<and> findall (experience_patterns ! i) t \<noteq> []
      \<and> (\<forall>m \<in> set (findall (experience_patterns ! i) t). decimal_value m < 2 ^ 53)
    \<longrightarrow> extract_experience t
          = Finite (real (Max (set (map decimal_value (findall (experience_patterns ! i) t))))))
   \<and> (i < length experience_patterns
      \<and> (\<forall>j < i. findall (experience_patterns ! j) t = [])
      \<and> findall (experience_patterns ! i) t \<noteq> []
      \<and> (\<exists>m \<in> set (findall (experience_patterns ! i) t). 2 ^ 1024 \<le> decimal_value m)
    \<longrightarrow> extract_experience t = PosInf)
   \<and> ((\<forall>p \<in> set experience_patterns. findall p t = [])
    \<longrightarrow> extract_experience t = Finite (min (real (length (findall date_pattern t))) 15))
   \<and> ((\<forall>p \<in> set experience_patterns. findall p t = []) \<and> findall date_pattern t = []
    \<longrightarrow> extract_experience t = Finite 0)
   \<and> extract_experience ''5 years of experience as well as 2 years as intern'' = Finite 5"
proof (intro conjI impI)
  assume a: "i < length experience_patterns
      \<and> (\<forall>j < i. findall (experience_patterns ! j) t = [])
      \<and> findall (experience_patterns ! i) t \<noteq> []"
  then show "extract_experience t
      \<in> set (map (\<lambda>m. round_double (decimal_value m)) (findall (experience_patterns ! i) t))"
    by (intro extract_first_match(1)) blast+
  from a show "\<forall>m \<in> set (findall (experience_patterns ! i) t).
      float_le (round_double (decimal_value m)) (extract_experience t)"
    by (intro extract_first_match(2)) blast+
next
  assume "i < length experience_patterns
      \<and> (\<forall>j < i. findall (experience_patterns ! j) t = [])
      \<and> findall (experience_patterns ! i) t \<noteq> []
      \<and> (\<forall>m \<in> set (findall (experience_patterns ! i) t). decimal_value m < 2 ^ 53)"
  then show "extract_experience t
      = Finite (real (Max (set (map decimal_value (findall (experience_patterns ! i) t)))))"
    by (intro extract_first_exact) blast+
next
  assume b: "i < length experience_patterns
      \<and> (\<forall>j < i. findall (experience_patterns ! j) t = [])
      \<and> findall (experience_patterns ! i) t \<noteq> []
      \<and> (\<exists>m \<in> set (findall (experience_patterns ! i) t). 2 ^ 1024 \<le> decimal_value m)"
  then obtain m where m: "m \<in> set (findall (experience_patterns ! i) t)"
    and big: "2 ^ 1024 \<le> decimal_value m" by blast
  from b have "\<forall>m \<in> set (findall (experience_patterns ! i) t).
      float_le (round_double (decimal_value m)) (extract_experience t)"
    by (intro extract_first_match(2)) blast+
  with m have "float_le (round_double (decimal_value m)) (extract_experience t)" by blast
  with round_double_overflow[OF big] show "extract_experience t = PosInf"
    by (cases "extract_experience t") simp_all
next
  assume "\<forall>p \<in> set experience_patterns. findall p t = []"
  then have n: "try_patterns experience_patterns t = None" by (rule try_patterns_none)
  show "extract_experience t = Finite (min (real (length (findall date_pattern t))) 15)"
  proof (cases "findall date_pattern t = []")
    case True
    with n show ?thesis by (simp add: extract_experience_def Let_def)
  next
    case False
    with n show ?thesis by (simp add: extract_experience_def Let_def date_count_capped)
  qed
next
  assume "(\<forall>p \<in> set experience_patterns. findall p t = []) \<and> findall date_pattern t = []"
  then have "try_patterns experience_patterns t = None" and "findall date_pattern t = []"
    by (simp_all add: try_patterns_none)
  then show "extract_experience t = Finite 0"
    by (simp add: extract_experience_def Let_def)
next
  show "extract_experience ''5 years of experience as well as 2 years as intern'' = Finite 5"
    by (rule scenario_value)
qed

lemma sample_years: "findall (experience_patterns ! 0) ''2 years experience, 7 years experience.'' = [''2'', ''7'']"
  by code_simp

lemma sample_no_years:
  "\<forall>p \<in> set experience_patterns. findall p ''ABC Corp (2020-2023), Y 2019 - present'' = []"
  by code_simp

lemma sample_dates:
  "findall date_pattern ''ABC Corp (2020-2023), Y 2019 - present'' = [''2020-2023'', ''2019 - present'']"
  by code_simp

lemma sample_nothing:
  "(\<forall>p \<in> set experience_patterns. findall p ''no numbers here'' = [])
   \<and> findall date_pattern ''no numbers here'' = []"
  by code_simp

theorem extract_experience_spec_witness:
  "extract_experience ''2 years experience, 7 years experience.'' = Finite 7
   \<and> extract_experience ''ABC Corp (2020-2023), Y 2019 - present'' = Finite 2
   \<and> extract_experience ''no numbers here'' = Finite 0"
proof -
  have l: "0 < length experience_patterns" by (simp add: experience_patterns_def)
  have v: "decimal_value ''2'' = 2" "decimal_value ''7'' = 7"
    by (simp_all add: decimal_value_def digit_value_def code_point_def)
  have "0 < length experience_patterns
      \<and> (\<forall>j < 0. findall (experience_patterns ! j) ''2 years experience, 7 years experience.'' = [])
      \<and> findall (experience_patterns ! 0) ''2 years experience, 7 years experience.'' \<noteq> []
      \<and> (\<forall>m \<in> set (findall (experience_patterns ! 0) ''2 years experience, 7 years experience.'').
            decimal_value m < 2 ^ 53)"
    using l by (simp add: sample_years v del: findall.simps)
  with extract_experience_spec [of 0 "''2 years experience, 7 years experience.''"]
  have "extract_experience ''2 years experience, 7 years experience.''
      = Finite (real (Max (set (map decimal_value
          (findall (experience_patterns ! 0) ''2 years experience, 7 years experience.'')))))"
    by blast
  then have 1: "extract_experience ''2 years experience, 7 years experience.'' = Finite 7"
    by (simp add: sample_years v del: findall.simps)
  from extract_experience_spec [of 0 "''ABC Corp (2020-2023), Y 2019 - present''"] sample_no_years
  have "extract_experience ''ABC Corp (2020-2023), Y 2019 - present''
      = Finite (min (real (length (findall date_pattern ''ABC Corp (2020-2023), Y 2019 - present''))) 15)"
    by blast
  then have 2: "extract_experience ''ABC Corp (2020-2023), Y 2019 - present'' = Finite 2"
    by (simp add: sample_dates del: findall.simps)
  from extract_experience_spec [of 0 "''no numbers here''"] sample_nothing
  have 3: "extract_experience ''no numbers here'' = Finite 0"
    by blast
  from 1 2 3 show ?thesis by (simp del: findall.simps)
qed


end
